theory Spec2Isabelle
  imports Complex_Main
begin

section \<open>Strings and regular expressions\<close>

text \<open>
  A JavaScript string is a sequence of UTF-16 code units and \<^verbatim>\<open>length\<close> counts them.
  The model is \<^typ>\<open>string\<close>: one \<^typ>\<open>char\<close> is one code unit, which restricts the
  model to the code units \<open>0x00\<close> to \<open>0xFF\<close> (Latin-1). The character classes below
  are the JavaScript ones cut down to that range: \<^verbatim>\<open>\s\<close> (also what \<^verbatim>\<open>trim\<close> strips) is
  TAB, LF, VT, FF, CR, SPACE and NBSP; the line terminators, which \<^verbatim>\<open>.\<close> refuses, are LF
  and CR; \<^verbatim>\<open>\d\<close> is \<^verbatim>\<open>0\<close> to \<^verbatim>\<open>9\<close>.
\<close>

definition isWhiteSpace :: "char \<Rightarrow> bool" where
  "isWhiteSpace c =
     (c \<in> {CHR 0x09, CHR 0x0A, CHR 0x0B, CHR 0x0C, CHR 0x0D, CHR 0x20, CHR 0xA0})"

definition isLineTerminator :: "char \<Rightarrow> bool" where
  "isLineTerminator c = (c \<in> {CHR 0x0A, CHR 0x0D})"

definition isDigit :: "char \<Rightarrow> bool" where
  "isDigit c = (c \<in> set ''0123456789'')"

definition isVowel :: "char \<Rightarrow> bool" where
  "isVowel c = (c \<in> set ''aeiouAEIOU'')"

definition trim :: "string \<Rightarrow> string" where
  "trim s = rev (dropWhile isWhiteSpace (rev (dropWhile isWhiteSpace s)))"

text \<open>
  \<^verbatim>\<open>toLowerCase\<close> on Latin-1: the letters \<^verbatim>\<open>A\<close> to \<^verbatim>\<open>Z\<close> and \<open>0xC0\<close> to \<open>0xDE\<close>
  without the multiplication sign \<open>0xD7\<close> move up by 32; nothing else changes.
  \<open>canonicalize\<close> is the case folding of a regular expression with the \<^verbatim>\<open>i\<close> flag
  and without the \<^verbatim>\<open>u\<close> flag: the upper-case form of a code unit when that is again
  one code unit of the same range.
\<close>

definition toLowerCaseChar :: "char \<Rightarrow> char" where
  "toLowerCaseChar c =
     (let n = of_char c :: nat
      in if (65 \<le> n \<and> n \<le> 90) \<or> (192 \<le> n \<and> n \<le> 222 \<and> n \<noteq> 215)
         then char_of (n + 32) else c)"

definition toLowerCase :: "string \<Rightarrow> string" where
  "toLowerCase s = map toLowerCaseChar s"

definition canonicalize :: "char \<Rightarrow> char" where
  "canonicalize c =
     (let n = of_char c :: nat
      in if (97 \<le> n \<and> n \<le> 122) \<or> (224 \<le> n \<and> n \<le> 254 \<and> n \<noteq> 247)
         then char_of (n - 32) else c)"

text \<open>
  The regular expressions of the source that have no back-reference are values of
  \<open>regex\<close>, and \<^verbatim>\<open>RegExp.test\<close> is decided with Brzozowski derivatives: \<open>deriv c r\<close>
  matches what \<open>r\<close> matches after a leading \<open>c\<close>. \<open>mkSeq\<close> and \<open>mkAlt\<close> build a
  sequence and an alternative and drop the parts that can never match.
\<close>

datatype regex =
    Never
  | Empty
  | Class "char \<Rightarrow> bool"
  | Seq regex regex
  | Alt regex regex
  | Star regex

fun nullable :: "regex \<Rightarrow> bool" where
  "nullable Never = False"
| "nullable Empty = True"
| "nullable (Class P) = False"
| "nullable (Seq r s) = (nullable r \<and> nullable s)"
| "nullable (Alt r s) = (nullable r \<or> nullable s)"
| "nullable (Star r) = True"

fun mkSeq :: "regex \<Rightarrow> regex \<Rightarrow> regex" where
  "mkSeq Never s = Never"
| "mkSeq r Never = Never"
| "mkSeq Empty s = s"
| "mkSeq r s = Seq r s"

fun mkAlt :: "regex \<Rightarrow> regex \<Rightarrow> regex" where
  "mkAlt Never s = s"
| "mkAlt r Never = r"
| "mkAlt r s = Alt r s"

fun deriv :: "char \<Rightarrow> regex \<Rightarrow> regex" where
  "deriv c Never = Never"
| "deriv c Empty = Never"
| "deriv c (Class P) = (if P c then Empty else Never)"
| "deriv c (Seq r s) =
     (if nullable r then mkAlt (mkSeq (deriv c r) s) (deriv c s) else mkSeq (deriv c r) s)"
| "deriv c (Alt r s) = mkAlt (deriv c r) (deriv c s)"
| "deriv c (Star r) = mkSeq (deriv c r) (Star r)"

text \<open>
  \<open>matchesAll\<close> is \<^verbatim>\<open>test\<close> for a pattern anchored as \<^verbatim>\<open>^...$\<close> (without the \<^verbatim>\<open>m\<close> flag
  \<^verbatim>\<open>$\<close> is the end of the input only); \<open>matchesWithin\<close> is \<^verbatim>\<open>test\<close> for a pattern
  without anchors, which succeeds when a match starts at some position; \<open>matchesPrefix\<close>
  is a match starting at the first position.
\<close>

fun matchesAll :: "regex \<Rightarrow> string \<Rightarrow> bool" where
  "matchesAll r [] = nullable r"
| "matchesAll r (c # cs) = matchesAll (deriv c r) cs"

fun matchesPrefix :: "regex \<Rightarrow> string \<Rightarrow> bool" where
  "matchesPrefix r [] = nullable r"
| "matchesPrefix r (c # cs) = (if nullable r then True else matchesPrefix (deriv c r) cs)"

fun matchesWithin :: "regex \<Rightarrow> string \<Rightarrow> bool" where
  "matchesWithin r [] = nullable r"
| "matchesWithin r (c # cs) = (if matchesPrefix r (c # cs) then True else matchesWithin r cs)"

text \<open>
  What a regular expression matches, stated without the matcher: \<open>lang r\<close> is the set of
  the strings that \<open>r\<close> matches as a whole. The matcher is shown to decide it.
\<close>

inductive_set star :: "string set \<Rightarrow> string set" for A :: "string set" where
  star_empty: "[] \<in> star A"
| star_more: "u \<in> A \<Longrightarrow> v \<in> star A \<Longrightarrow> u @ v \<in> star A"

fun lang :: "regex \<Rightarrow> string set" where
  "lang Never = {}"
| "lang Empty = {[]}"
| "lang (Class P) = {[c] | c. P c}"
| "lang (Seq r s) = {u @ v | u v. u \<in> lang r \<and> v \<in> lang s}"
| "lang (Alt r s) = lang r \<union> lang s"
| "lang (Star r) = star (lang r)"

text \<open>The atoms and the derived forms of the patterns.\<close>

definition sameChar :: "char \<Rightarrow> char \<Rightarrow> bool" where
  "sameChar c x = (x = c)"

definition sameLetter :: "char \<Rightarrow> char \<Rightarrow> bool" where
  "sameLetter c x = (canonicalize x = canonicalize c)"

definition notSpace :: "char \<Rightarrow> bool" where
  "notSpace c = (\<not> isWhiteSpace c)"

definition notSpaceOrAt :: "char \<Rightarrow> bool" where
  "notSpaceOrAt c = (\<not> isWhiteSpace c \<and> c \<noteq> CHR ''@'')"

definition seqs :: "regex list \<Rightarrow> regex" where
  "seqs rs = foldr Seq rs Empty"

definition alts :: "regex list \<Rightarrow> regex" where
  "alts rs = foldr Alt rs Never"

definition literalI :: "string \<Rightarrow> regex" where
  "literalI s = seqs (map (\<lambda>c. Class (sameLetter c)) s)"

definition oneOrMore :: "regex \<Rightarrow> regex" where
  "oneOrMore r = Seq r (Star r)"

definition optional :: "regex \<Rightarrow> regex" where
  "optional r = Alt r Empty"

fun exactly :: "nat \<Rightarrow> regex \<Rightarrow> regex" where
  "exactly 0 r = Empty"
| "exactly (Suc n) r = Seq r (exactly n r)"

section \<open>Heuristic filters and field validators\<close>

text \<open>
  \<^verbatim>\<open>text.match(/(.)\1{2,}/g)\<close>: the list of matches, found from left to right. A match
  starts at a character that is no line terminator and is followed by at least two
  copies of itself; it takes all the copies that follow, and the search goes on behind
  them. \<^verbatim>\<open>match\<close> returns \<^verbatim>\<open>null\<close> where this list is empty.
\<close>

function matchRepeatedChars :: "string \<Rightarrow> string list" where
  "matchRepeatedChars [] = []"
| "matchRepeatedChars (c # cs) =
     (if \<not> isLineTerminator c \<and> length (takeWhile (\<lambda>x. x = c) cs) \<ge> 2
      then (c # takeWhile (\<lambda>x. x = c) cs) # matchRepeatedChars (dropWhile (\<lambda>x. x = c) cs)
      else matchRepeatedChars cs)"
  by pat_completeness auto
termination
  by (relation "measure length") (auto simp: less_Suc_eq_le length_dropWhile_le)

text \<open>
  \<^verbatim>\<open>isGibberish\<close>. \<^verbatim>\<open>text.match(/[aeiouAEIOU]/g)\<close> lists the vowels of the text. The
  quotient \<^verbatim>\<open>consonantCount / text.length\<close> is a division of doubles compared with the
  double nearest to 0.8; for a text shorter than \<open>2^30\<close> code units, the longest string
  an engine allocates, the comparison has the outcome of the exact one, which the model
  takes over the rationals.
\<close>

definition isGibberish :: "string \<Rightarrow> bool" where
  "isGibberish text =
     (if text = [] \<or> length text < 2 then False
      else
        let vowelCount = length (filter isVowel text);
            consonantCount = length text - vowelCount
        in if vowelCount = 0 \<or> (of_nat consonantCount / of_nat (length text) :: rat) > 0.8
           then True
           else
             let repeatedChars = matchRepeatedChars text
             in if repeatedChars \<noteq> [] \<and> length repeatedChars > 0 then True else False)"

text \<open>
  \<^verbatim>\<open>/(https?:\/\/[^\s]+|www\.[^\s]+|[^\s]+\.(com|net|...|travel)[^\s]*)/gi\<close>. The literal
  is evaluated anew at every call, so the \<^verbatim>\<open>g\<close> flag's \<^verbatim>\<open>lastIndex\<close> is 0 at the one
  \<^verbatim>\<open>test\<close>.
\<close>

definition urlRegex :: regex where
  "urlRegex =
     alts [seqs [literalI ''http'', optional (Class (sameLetter CHR ''s'')), literalI ''://'',
                 oneOrMore (Class notSpace)],
           seqs [literalI ''www'', Class (sameLetter CHR ''.''), oneOrMore (Class notSpace)],
           seqs [oneOrMore (Class notSpace), Class (sameLetter CHR ''.''),
                 alts (map literalI
                   [''com'', ''net'', ''org'', ''edu'', ''gov'', ''mil'', ''int'', ''co'', ''io'',
                    ''ly'', ''me'', ''tv'', ''info'', ''biz'', ''name'', ''mobi'', ''tel'',
                    ''travel'']),
                 Star (Class notSpace)]]"

definition containsUrls :: "string \<Rightarrow> bool" where
  "containsUrls text = matchesWithin urlRegex text"

text \<open>\<^verbatim>\<open>/^[^\s@]+@[^\s@]+\.[^\s@]+$/\<close>\<close>

definition emailRegex :: regex where
  "emailRegex =
     seqs [oneOrMore (Class notSpaceOrAt), Class (sameChar CHR ''@''),
           oneOrMore (Class notSpaceOrAt), Class (sameChar CHR ''.''),
           oneOrMore (Class notSpaceOrAt)]"

definition isValidEmail :: "string \<Rightarrow> bool" where
  "isValidEmail email = matchesAll emailRegex email"

text \<open>\<^verbatim>\<open>phone.replace(/\D/g, '')\<close> deletes every character that is no digit.\<close>

definition isValidPhone :: "string \<Rightarrow> bool" where
  "isValidPhone phone =
     (let phoneDigits = filter (\<lambda>c. \<not> \<not> isDigit c) phone in length phoneDigits \<ge> 10)"

text \<open>\<^verbatim>\<open>/^\d{5}(-\d{4})?$/\<close>\<close>

definition zipRegex :: regex where
  "zipRegex =
     seqs [exactly 5 (Class isDigit),
           optional (seqs [Class (sameChar CHR ''-''), exactly 4 (Class isDigit)])]"

definition isValidZipCode :: "string \<Rightarrow> bool" where
  "isValidZipCode zipCode = matchesAll zipRegex zipCode"

section \<open>Rate limiter\<close>

text \<open>
  The process-wide table \<^verbatim>\<open>rateLimitStore\<close> is a JavaScript \<^verbatim>\<open>Map\<close> from the client
  identifier to an object \<^verbatim>\<open>{ count, resetTime }\<close>. It is modelled as a map that every
  call takes and returns. \<^verbatim>\<open>Date.now()\<close> is an argument. Counters and millisecond
  timestamps are integers far below \<open>2^53\<close>, where JavaScript numbers are exact, so
  they are \<^typ>\<open>int\<close>.
\<close>

record rateLimitRecord =
  count :: int
  resetTime :: int

type_synonym rateLimitStore = "string \<rightharpoonup> rateLimitRecord"

definition checkRateLimit ::
  "rateLimitStore \<Rightarrow> int \<Rightarrow> string \<Rightarrow> int \<Rightarrow> int \<Rightarrow> bool \<times> rateLimitStore" where
  "checkRateLimit store now identifier maxRequests windowMs =
     (case store identifier of
        None \<Rightarrow>
          (True, store(identifier \<mapsto> \<lparr>count = 1, resetTime = now + windowMs\<rparr>))
      | Some record \<Rightarrow>
          if now > resetTime record then
            (True, store(identifier \<mapsto> \<lparr>count = 1, resetTime = now + windowMs\<rparr>))
          else if count record \<ge> maxRequests then (False, store)
          else (True, store(identifier \<mapsto> record\<lparr>count := count record + 1\<rparr>)))"

text \<open>
  A run of calls with one \<open>maxRequests\<close>, each call with its own identifier, clock
  reading and window length; the answers are collected in call order.
\<close>

fun checkRateLimits ::
  "rateLimitStore \<Rightarrow> int \<Rightarrow> (string \<times> int \<times> int) list \<Rightarrow> bool list \<times> rateLimitStore" where
  "checkRateLimits store maxRequests [] = ([], store)"
| "checkRateLimits store maxRequests ((identifier, now, windowMs) # calls) =
     (let (allowed, store') = checkRateLimit store now identifier maxRequests windowMs;
          (rest, store'') = checkRateLimits store' maxRequests calls
      in (allowed # rest, store''))"

section \<open>Request handler\<close>

text \<open>
  The handler modelled is the one with the validation pipeline. The repository also
  holds an older handler of the same name that only checks that the required fields are
  present and then sends two messages, the notification and an automatic reply.
\<close>

text \<open>
  The data of \<^verbatim>\<open>contactForm\<close>. The body is taken as \<^verbatim>\<open>JSON.parse\<close> delivers it at the
  declared type \<^verbatim>\<open>ContactFormData\<close>: every property is a string or is missing
  (\<^verbatim>\<open>undefined\<close>), also the six that the interface declares as required, since nothing
  checks them before the handler does.
\<close>

record contactFormData =
  firstName :: "string option"
  lastName :: "string option"
  email :: "string option"
  phone :: "string option"
  zipCode :: "string option"
  caseType :: "string option"
  description :: "string option"
  recaptchaToken :: "string option"
  website :: "string option"

text \<open>
  The request: its method, its headers (\<^verbatim>\<open>headers.get\<close>, \<^verbatim>\<open>null\<close> as \<open>None\<close>) and the
  outcome of \<^verbatim>\<open>JSON.parse(await request.text())\<close>, \<open>None\<close> where either throws.
\<close>

record httpRequest =
  requestMethod :: string
  requestHeaders :: "string \<rightharpoonup> string"
  json :: "contactFormData option"

text \<open>
  The response. \<open>body\<close> is the object handed to \<^verbatim>\<open>JSON.stringify\<close>: \<^verbatim>\<open>{ error }\<close>,
  \<^verbatim>\<open>{ error, details }\<close> or \<^verbatim>\<open>{ success, message }\<close>; the preflight answer has none.
\<close>

datatype responseBody =
    NoBody
  | JsonError string
  | JsonErrorDetails string string
  | JsonSuccess bool string

record httpResponse =
  status :: nat
  headers :: "(string \<times> string) list"
  body :: responseBody

record emailMessage =
  senderAddress :: string
  subject :: string
  html :: string
  recipients :: "string list"

text \<open>The \<^verbatim>\<open>process.env\<close> settings the module reads; \<open>None\<close> is an unset variable.\<close>

record environment =
  ACS_CONNECTION_STRING :: "string option"
  SENDER_EMAIL_ADDRESS :: "string option"
  RECAPTCHA_SECRET_KEY :: "string option"

text \<open>
  What the verification endpoint answers (\<^verbatim>\<open>data\<close>, either field possibly missing) and
  what \<^verbatim>\<open>validateRecaptcha\<close> makes of it. A score is a JSON number, hence a rational.
\<close>

record siteverifyData =
  successField :: "bool option"
  scoreField :: "rat option"

record recaptchaResult =
  success :: bool
  score :: rat

text \<open>
  Everything outside the process: \<^verbatim>\<open>Date.now()\<close>; the verification endpoint, from the
  body of the POST to the parsed answer, \<open>None\<close> where \<^verbatim>\<open>fetch\<close> or \<^verbatim>\<open>response.json()\<close>
  throws; whether \<^verbatim>\<open>new EmailClient(connectionString)\<close> returns a client; the outcome of
  \<^verbatim>\<open>beginSend\<close> and \<^verbatim>\<open>pollUntilDone\<close> on a message, \<open>None\<close> for success and the error's
  message otherwise; and the rendering of the current date by \<^verbatim>\<open>toLocaleString\<close>.
\<close>

record collaborators =
  dateNow :: int
  siteverify :: "string \<Rightarrow> siteverifyData option"
  newEmailClient :: "string \<Rightarrow> bool"
  beginSend :: "emailMessage \<Rightarrow> string option"
  submittedAt :: string

text \<open>
  What one invocation does: its response, the rate-limit table it leaves, the bodies it
  posted to the verification endpoint and the messages it handed to \<^verbatim>\<open>beginSend\<close>.
\<close>

record outcome =
  response :: httpResponse
  storeAfter :: rateLimitStore
  captchaRequests :: "string list"
  sentMessages :: "emailMessage list"

definition RECIPIENT_ADDRESSES :: "string list" where
  "RECIPIENT_ADDRESSES =
     [''brad@bullattorneys.com'', ''sudheer@bullattorneys.com'', ''web@bullattorneys.com'']"

definition BLOCKED_EMAILS :: "string list" where
  "BLOCKED_EMAILS = [''jacobroyvisser55@gmail.com'', ''jacobvisser45@gmail.com'']"

text \<open>
  JavaScript's coercions on a value that is a string or \<^verbatim>\<open>undefined\<close>: it is truthy when
  it is a non-empty string, and \<^verbatim>\<open>String(v)\<close>, which template literals apply too, turns
  \<^verbatim>\<open>undefined\<close> into the text \<^verbatim>\<open>undefined\<close>.
\<close>

definition truthy :: "string option \<Rightarrow> bool" where
  "truthy v = (case v of None \<Rightarrow> False | Some s \<Rightarrow> s \<noteq> [])"

definition toString :: "string option \<Rightarrow> string" where
  "toString v = (case v of None \<Rightarrow> ''undefined'' | Some s \<Rightarrow> s)"

definition SENDER_ADDRESS :: "environment \<Rightarrow> string" where
  "SENDER_ADDRESS env =
     (if truthy (SENDER_EMAIL_ADDRESS env) then toString (SENDER_EMAIL_ADDRESS env)
      else ''DoNotReply@2dde48cf-f3cb-436b-838a-1c27aa0e1c0c.azurecomm.net'')"

text \<open>Decimal digits of a number, as a template literal prints it.\<close>

fun showNat :: "nat \<Rightarrow> string" where
  "showNat n =
     (if n < 10 then [''0123456789'' ! n]
      else showNat (n div 10) @ [''0123456789'' ! (n mod 10)])"

declare showNat.simps [simp del]

definition validateRecaptcha :: "environment \<Rightarrow> collaborators \<Rightarrow> string \<Rightarrow> recaptchaResult" where
  "validateRecaptcha env world token =
     (case siteverify world
             (''secret='' @ toString (RECAPTCHA_SECRET_KEY env) @ ''&response='' @ token) of
        None \<Rightarrow> \<lparr>success = False, score = 0\<rparr>
      | Some data \<Rightarrow>
          \<lparr>success = (case successField data of None \<Rightarrow> False | Some b \<Rightarrow> b),
           score = (case scoreField data of None \<Rightarrow> 0 | Some x \<Rightarrow> x)\<rparr>)"

definition jsonHeaders :: "(string \<times> string) list" where
  "jsonHeaders =
     [(''Access-Control-Allow-Origin'', ''*''), (''Content-Type'', ''application/json'')]"

definition preflightResponse :: httpResponse where
  "preflightResponse =
     \<lparr>status = 200,
      headers = [(''Access-Control-Allow-Origin'', ''*''),
                 (''Access-Control-Allow-Methods'', ''POST, OPTIONS''),
                 (''Access-Control-Allow-Headers'', ''Content-Type, Accept''),
                 (''Access-Control-Max-Age'', ''86400'')],
      body = NoBody\<rparr>"

definition errorResponse :: "nat \<Rightarrow> string \<Rightarrow> httpResponse" where
  "errorResponse code message =
     \<lparr>status = code, headers = jsonHeaders, body = JsonError message\<rparr>"

definition getField :: "contactFormData \<Rightarrow> string \<Rightarrow> string option" where
  "getField formData field =
     (if field = ''firstName'' then firstName formData
      else if field = ''lastName'' then lastName formData
      else if field = ''email'' then email formData
      else if field = ''phone'' then phone formData
      else if field = ''zipCode'' then zipCode formData
      else if field = ''caseType'' then caseType formData
      else if field = ''description'' then description formData
      else if field = ''recaptchaToken'' then recaptchaToken formData
      else if field = ''website'' then website formData
      else None)"

definition requiredFields :: "string list" where
  "requiredFields = [''firstName'', ''lastName'', ''email'', ''phone'', ''zipCode'', ''caseType'']"

definition maxLengths :: "(string \<times> nat) list" where
  "maxLengths =
     [(''firstName'', 50), (''lastName'', 50), (''email'', 100), (''phone'', 20),
      (''zipCode'', 10), (''caseType'', 50), (''description'', 1200)]"

text \<open>
  The two passes over the fields; each returns from the handler at the first field that
  fails, which is what the functions report.
\<close>

fun firstMissingField :: "contactFormData \<Rightarrow> string list \<Rightarrow> string option" where
  "firstMissingField formData [] = None"
| "firstMissingField formData (field # others) =
     (if \<not> truthy (getField formData field) \<or> trim (toString (getField formData field)) = []
      then Some field
      else firstMissingField formData others)"

fun firstTooLongField :: "contactFormData \<Rightarrow> (string \<times> nat) list \<Rightarrow> (string \<times> nat) option" where
  "firstTooLongField formData [] = None"
| "firstTooLongField formData ((field, maxLength) # entries) =
     (if truthy (getField formData field) \<and> length (toString (getField formData field)) > maxLength
      then Some (field, maxLength)
      else firstTooLongField formData entries)"

text \<open>
  The checks from the honeypot to the URL filter. The result is the response of the
  first check that fails, \<open>None\<close> when all pass, with the rate-limit table as the checks
  leave it.
\<close>

definition validateSubmission ::
  "rateLimitStore \<Rightarrow> int \<Rightarrow> string \<Rightarrow> contactFormData \<Rightarrow> httpResponse option \<times> rateLimitStore" where
  "validateSubmission store now clientIp formData =
     (if truthy (website formData) \<and> trim (toString (website formData)) \<noteq> []
      then (Some (errorResponse 400 ''Spam detected''), store)
      else if truthy (email formData) \<and> toLowerCase (toString (email formData)) \<in> set BLOCKED_EMAILS
      then (Some (errorResponse 400 ''Email not allowed''), store)
      else
        let (allowed, store') = checkRateLimit store now clientIp 3 60000
        in if \<not> allowed
           then (Some (errorResponse 429 ''Too many requests. Please try again later.''), store')
           else
             (case firstMissingField formData requiredFields of
                Some field \<Rightarrow> (Some (errorResponse 400 (field @ '' is required'')), store')
              | None \<Rightarrow>
                  (case firstTooLongField formData maxLengths of
                     Some (field, maxLength) \<Rightarrow>
                       (Some (errorResponse 400
                          (field @ '' is too long (max '' @ showNat maxLength @ '' characters)'')),
                        store')
                   | None \<Rightarrow>
                       if \<not> isValidEmail (toString (email formData))
                       then (Some (errorResponse 400 ''Invalid email format''), store')
                       else if \<not> isValidPhone (toString (phone formData))
                       then (Some (errorResponse 400 ''Invalid phone number''), store')
                       else if \<not> isValidZipCode (toString (zipCode formData))
                       then (Some (errorResponse 400 ''Invalid zip code format''), store')
                       else if isGibberish (toString (firstName formData)) \<or>
                               isGibberish (toString (lastName formData))
                       then (Some (errorResponse 400 ''Please enter valid names''), store')
                       else if truthy (description formData) \<and>
                               containsUrls (toString (description formData))
                       then (Some (errorResponse 400 ''URLs are not allowed in the description''),
                             store')
                       else (None, store'))))"

text \<open>The message of the notification e-mail.\<close>

definition emailSubject :: "contactFormData \<Rightarrow> string" where
  "emailSubject formData = ''New Contact Form Submission - '' @ toString (caseType formData)"

definition emailBody :: "collaborators \<Rightarrow> string \<Rightarrow> contactFormData \<Rightarrow> string" where
  "emailBody world clientIp formData =
     [CHR 0x0A] @
     ''      <h2>New Contact Form Submission</h2>'' @ [CHR 0x0A] @
     ''      <p><strong>Name:</strong> '' @ toString (firstName formData) @ '' '' @
       toString (lastName formData) @ ''</p>'' @ [CHR 0x0A] @
     ''      <p><strong>Email:</strong> '' @ toString (email formData) @ ''</p>'' @ [CHR 0x0A] @
     ''      <p><strong>Phone:</strong> '' @ toString (phone formData) @ ''</p>'' @ [CHR 0x0A] @
     ''      <p><strong>Zip Code:</strong> '' @ toString (zipCode formData) @ ''</p>'' @ [CHR 0x0A] @
     ''      <p><strong>Case Type:</strong> '' @ toString (caseType formData) @ ''</p>'' @ [CHR 0x0A] @
     ''      '' @
       (if truthy (description formData)
        then ''<p><strong>Description:</strong><br>'' @
             concat (map (\<lambda>c. if c = CHR 0x0A then ''<br>'' else [c])
                       (toString (description formData))) @ ''</p>''
        else '''') @ [CHR 0x0A] @
     ''      <p><strong>Submitted:</strong> '' @ submittedAt world @ ''</p>'' @ [CHR 0x0A] @
     ''      <p><strong>IP Address:</strong> '' @ clientIp @ ''</p>'' @ [CHR 0x0A] @
     ''    ''"

definition emailMessageFor ::
  "environment \<Rightarrow> collaborators \<Rightarrow> string \<Rightarrow> contactFormData \<Rightarrow> emailMessage" where
  "emailMessageFor env world clientIp formData =
     \<lparr>senderAddress = SENDER_ADDRESS env,
      subject = emailSubject formData,
      html = emailBody world clientIp formData,
      recipients = map (\<lambda>address. address) RECIPIENT_ADDRESSES\<rparr>"

text \<open>
  The dispatch, from the check of the connection string to the success response. An
  exception of the \<^verbatim>\<open>EmailClient\<close> constructor reaches the handler's outer \<^verbatim>\<open>catch\<close>; one
  of \<^verbatim>\<open>beginSend\<close> or \<^verbatim>\<open>pollUntilDone\<close> reaches the inner one.
\<close>

definition sendEmail ::
  "environment \<Rightarrow> collaborators \<Rightarrow> rateLimitStore \<Rightarrow> string list \<Rightarrow> string \<Rightarrow> contactFormData
     \<Rightarrow> outcome" where
  "sendEmail env world store verifications clientIp formData =
     (if \<not> truthy (ACS_CONNECTION_STRING env)
      then \<lparr>response = errorResponse 500 ''Email service not configured'', storeAfter = store,
            captchaRequests = verifications, sentMessages = []\<rparr>
      else if \<not> newEmailClient world (toString (ACS_CONNECTION_STRING env))
      then \<lparr>response = errorResponse 500 ''Internal server error'', storeAfter = store,
            captchaRequests = verifications, sentMessages = []\<rparr>
      else
        let emailMessage = emailMessageFor env world clientIp formData
        in (case beginSend world emailMessage of
              Some errorMessage \<Rightarrow>
                \<lparr>response =
                   \<lparr>status = 500, headers = jsonHeaders,
                    body = JsonErrorDetails ''Failed to send email'' errorMessage\<rparr>,
                 storeAfter = store, captchaRequests = verifications,
                 sentMessages = [emailMessage]\<rparr>
            | None \<Rightarrow>
                \<lparr>response =
                   \<lparr>status = 200, headers = jsonHeaders,
                    body = JsonSuccess True ''Form submitted successfully''\<rparr>,
                 storeAfter = store, captchaRequests = verifications,
                 sentMessages = [emailMessage]\<rparr>))"

definition clientIpOf :: "httpRequest \<Rightarrow> string" where
  "clientIpOf request =
     (if truthy (requestHeaders request ''x-forwarded-for'')
      then toString (requestHeaders request ''x-forwarded-for'')
      else if truthy (requestHeaders request ''x-real-ip'')
      then toString (requestHeaders request ''x-real-ip'')
      else ''unknown'')"

definition contactForm ::
  "environment \<Rightarrow> collaborators \<Rightarrow> rateLimitStore \<Rightarrow> httpRequest \<Rightarrow> outcome" where
  "contactForm env world store request =
     (if requestMethod request = ''OPTIONS''
      then \<lparr>response = preflightResponse, storeAfter = store, captchaRequests = [],
            sentMessages = []\<rparr>
      else if requestMethod request \<noteq> ''POST''
      then \<lparr>response = errorResponse 405 ''Method not allowed'', storeAfter = store,
            captchaRequests = [], sentMessages = []\<rparr>
      else
        let clientIp = clientIpOf request
        in (case json request of
              None \<Rightarrow>
                \<lparr>response = errorResponse 400 ''Invalid request format'', storeAfter = store,
                 captchaRequests = [], sentMessages = []\<rparr>
            | Some formData \<Rightarrow>
                (case validateSubmission store (dateNow world) clientIp formData of
                   (Some rejection, store') \<Rightarrow>
                     \<lparr>response = rejection, storeAfter = store', captchaRequests = [],
                      sentMessages = []\<rparr>
                 | (None, store') \<Rightarrow>
                     if truthy (recaptchaToken formData)
                     then
                       if \<not> truthy (RECAPTCHA_SECRET_KEY env)
                       then \<lparr>response = errorResponse 500 ''reCAPTCHA not configured'',
                             storeAfter = store', captchaRequests = [], sentMessages = []\<rparr>
                       else
                         let token = toString (recaptchaToken formData);
                             recaptchaResult = validateRecaptcha env world token;
                             verifications =
                               [''secret='' @ toString (RECAPTCHA_SECRET_KEY env) @
                                ''&response='' @ token]
                         in if \<not> success recaptchaResult \<or> score recaptchaResult < 0.5
                            then \<lparr>response = errorResponse 400 ''reCAPTCHA validation failed'',
                                  storeAfter = store', captchaRequests = verifications,
                                  sentMessages = []\<rparr>
                            else sendEmail env world store' verifications clientIp formData
                     else sendEmail env world store' [] clientIp formData)))"

section \<open>Auxiliary notions of the properties\<close>

text \<open>
  The bound that the counters of all stored records are to respect.
\<close>

definition countsBounded :: "rateLimitStore \<Rightarrow> int \<Rightarrow> bool" where
  "countsBounded store maxRequests =
     (\<forall>identifier r. store identifier = Some r \<longrightarrow> 1 \<le> count r \<and> count r \<le> maxRequests)"

text \<open>
  A character that is no line terminator stands three times in a row.
\<close>

definition hasTriple :: "string \<Rightarrow> bool" where
  "hasTriple s =
     (\<exists>i. i + 2 < length s \<and> s ! i = s ! (i + 1) \<and> s ! (i + 1) = s ! (i + 2) \<and>
          s ! i \<notin> {CHR 0x0A, CHR 0x0D})"

text \<open>
  The conditions of the claims about whole submissions, in the claims' words. A
  required field is \<open>filled\<close> when it is present, is not empty after trimming and is
  within its length limit. The fields of a submission are valid when the e-mail address
  is not on the blocklist, the six required fields are filled, e-mail address, phone
  number and zip code have a valid format and neither name is gibberish.
\<close>

definition filled :: "string option \<Rightarrow> nat \<Rightarrow> bool" where
  "filled v limit = (case v of None \<Rightarrow> False | Some s \<Rightarrow> trim s \<noteq> [] \<and> length s \<le> limit)"

definition validFields :: "contactFormData \<Rightarrow> bool" where
  "validFields formData =
     (toLowerCase (toString (email formData)) \<notin> set BLOCKED_EMAILS \<and>
      filled (firstName formData) 50 \<and> filled (lastName formData) 50 \<and>
      filled (email formData) 100 \<and> filled (phone formData) 20 \<and>
      filled (zipCode formData) 10 \<and> filled (caseType formData) 50 \<and>
      isValidEmail (toString (email formData)) \<and>
      isValidPhone (toString (phone formData)) \<and>
      isValidZipCode (toString (zipCode formData)) \<and>
      \<not> isGibberish (toString (firstName formData)) \<and>
      \<not> isGibberish (toString (lastName formData)))"

text \<open>
  The URL pattern of the handler, stated on the description itself. Two strings are the
  same text when they are equal up to the case of their letters. A description holds
  the pattern when it holds \<^verbatim>\<open>http://\<close>, \<^verbatim>\<open>https://\<close> or \<^verbatim>\<open>www.\<close>, in any case,
  directly followed by a character that is no white space, or a character that is no
  white space directly followed by a dot and, in any case, one of the suffixes.
\<close>

definition sameText :: "string \<Rightarrow> string \<Rightarrow> bool" where
  "sameText p s = (map canonicalize s = map canonicalize p)"

definition urlSuffixes :: "string list" where
  "urlSuffixes =
     [''com'', ''net'', ''org'', ''edu'', ''gov'', ''mil'', ''int'', ''co'', ''io'', ''ly'',
      ''me'', ''tv'', ''info'', ''biz'', ''name'', ''mobi'', ''tel'', ''travel'']"

definition urlPattern :: "string \<Rightarrow> bool" where
  "urlPattern d =
     (\<exists>pre w x post. \<not> isWhiteSpace x \<and>
        (d = pre @ w @ x # post \<and>
           (sameText ''http://'' w \<or> sameText ''https://'' w \<or> sameText ''www.'' w) \<or>
         d = pre @ x # w @ post \<and> (\<exists>s\<in>set urlSuffixes. sameText (CHR ''.'' # s) w)))"

text \<open>
  A submission, a request carrying it, and an environment and collaborators, at which
  the properties below are instantiated.
\<close>

definition sampleForm :: contactFormData where
  "sampleForm =
     \<lparr>firstName = Some ''Jane'', lastName = Some ''Doe'', email = Some ''jane@example.com'',
      phone = Some ''(316) 684-4400'', zipCode = Some ''67202'', caseType = Some ''Car Accident'',
      description = Some ''Hit by a car'', recaptchaToken = None, website = None\<rparr>"

definition sampleRequest :: "contactFormData \<Rightarrow> httpRequest" where
  "sampleRequest formData =
     \<lparr>requestMethod = ''POST'',
      requestHeaders = [''x-forwarded-for'' \<mapsto> ''203.0.113.7''],
      json = Some formData\<rparr>"

definition sampleEnvironment :: environment where
  "sampleEnvironment =
     \<lparr>ACS_CONNECTION_STRING = Some ''endpoint=https://acs.example.net/;accesskey=a2V5'',
      SENDER_EMAIL_ADDRESS = None,
      RECAPTCHA_SECRET_KEY = Some ''6LeSecret''\<rparr>"

definition sampleCollaborators :: "siteverifyData option \<Rightarrow> collaborators" where
  "sampleCollaborators answer =
     \<lparr>dateNow = 1700000000000,
      siteverify = (\<lambda>body. answer),
      newEmailClient = (\<lambda>connectionString. True),
      beginSend = (\<lambda>message. None),
      submittedAt = ''Nov 14, 2023, 4:13:20 PM''\<rparr>"

section \<open>Evaluation at concrete strings\<close>

lemma char_of_eq_literal:
  "char_of (n::nat) = c \<longleftrightarrow> take_bit 8 n = of_char c"
  "c = char_of (n::nat) \<longleftrightarrow> take_bit 8 n = of_char c"
  using char_of_eq_iff [of n c] by (metis, metis)

lemma exactly_numeral: "exactly (numeral k) r = Seq r (exactly (pred_numeral k) r)"
  by (simp add: numeral_eq_Suc)

lemmas string_evals =
  seqs_def alts_def literalI_def oneOrMore_def optional_def exactly_numeral
  sameChar_def sameLetter_def notSpace_def notSpaceOrAt_def canonicalize_def
  toLowerCase_def toLowerCaseChar_def trim_def
  isWhiteSpace_def isDigit_def isVowel_def isLineTerminator_def char_of_eq_literal

section \<open>The matcher decides the language of a regular expression\<close>

lemma nullable_lang: "nullable r \<longleftrightarrow> [] \<in> lang r"
  by (induction r) (auto intro: star_empty)

lemma lang_mkSeq: "lang (mkSeq r s) = lang (Seq r s)"
  by (induction r s rule: mkSeq.induct) auto

lemma lang_mkAlt: "lang (mkAlt r s) = lang (Alt r s)"
  by (induction r s rule: mkAlt.induct) auto

lemma star_Cons:
  "c # w \<in> star A \<longleftrightarrow> (\<exists>u v. w = u @ v \<and> c # u \<in> A \<and> v \<in> star A)"
proof
  assume "c # w \<in> star A"
  then show "\<exists>u v. w = u @ v \<and> c # u \<in> A \<and> v \<in> star A"
  proof (induction "c # w" rule: star.induct)
    case (star_more u v)
    show ?case
    proof (cases u)
      case Nil
      with star_more show ?thesis by simp
    next
      case (Cons a u')
      with star_more have "w = u' @ v" "c # u' \<in> A" "v \<in> star A"
        by auto
      then show ?thesis by blast
    qed
  qed
next
  assume "\<exists>u v. w = u @ v \<and> c # u \<in> A \<and> v \<in> star A"
  then obtain u v where "w = u @ v" "c # u \<in> A" "v \<in> star A"
    by blast
  then show "c # w \<in> star A"
    using star_more [of "c # u" A v] by simp
qed

lemma lang_deriv: "lang (deriv c r) = {w. c # w \<in> lang r}"
proof (induction r)
  case (Seq r s)
  have "{w. c # w \<in> lang (Seq r s)} =
          {u @ v | u v. c # u \<in> lang r \<and> v \<in> lang s} \<union>
          (if [] \<in> lang r then {w. c # w \<in> lang s} else {})"
    by (auto simp: Cons_eq_append_conv)
  with Seq show ?case
    by (auto simp: lang_mkSeq lang_mkAlt nullable_lang)
next
  case (Star r)
  then show ?case
    by (auto simp: lang_mkSeq star_Cons)
qed (auto simp: lang_mkAlt)

lemma matchesAll_lang: "matchesAll r s \<longleftrightarrow> s \<in> lang r"
  by (induction s arbitrary: r) (simp_all add: nullable_lang lang_deriv)

lemma matchesPrefix_lang: "matchesPrefix r s \<longleftrightarrow> (\<exists>u v. s = u @ v \<and> u \<in> lang r)"
proof (induction s arbitrary: r)
  case Nil
  show ?case by (simp add: nullable_lang)
next
  case (Cons c s)
  have "(\<exists>u v. c # s = u @ v \<and> u \<in> lang r) \<longleftrightarrow>
          [] \<in> lang r \<or> (\<exists>u v. s = u @ v \<and> c # u \<in> lang r)"
    by (auto simp: Cons_eq_append_conv)
  with Cons [of "deriv c r"] show ?case
    by (simp add: nullable_lang lang_deriv)
qed

lemma matchesWithin_lang:
  "matchesWithin r s \<longleftrightarrow> (\<exists>t u v. s = t @ u @ v \<and> u \<in> lang r)"
proof (induction s)
  case Nil
  show ?case by (simp add: nullable_lang)
next
  case (Cons c s)
  have "(\<exists>t u v. c # s = t @ u @ v \<and> u \<in> lang r) \<longleftrightarrow>
          (\<exists>u v. c # s = u @ v \<and> u \<in> lang r) \<or> (\<exists>t u v. s = t @ u @ v \<and> u \<in> lang r)"
    (is "?l \<longleftrightarrow> ?p \<or> ?w")
  proof
    assume ?l
    then obtain t u v where split: "c # s = t @ u @ v" and u: "u \<in> lang r"
      by blast
    show "?p \<or> ?w"
    proof (cases t)
      case Nil
      with split u show ?thesis by auto
    next
      case (Cons a t')
      with split have "s = t' @ u @ v" by simp
      with u show ?thesis by blast
    qed
  next
    assume "?p \<or> ?w"
    then show ?l
    proof
      assume ?p
      then obtain u v where "c # s = [] @ u @ v" "u \<in> lang r" by auto
      then show ?l by blast
    next
      assume ?w
      then obtain t u v where "c # s = (c # t) @ u @ v" "u \<in> lang r" by auto
      then show ?l by blast
    qed
  qed
  with Cons show ?case
    by (simp only: matchesWithin.simps matchesPrefix_lang if_bool_eq_disj) blast
qed

section \<open>The URL pattern\<close>

lemma sameText_Nil [simp]: "sameText [] s \<longleftrightarrow> s = []"
  by (simp add: sameText_def)

lemma sameText_Cons:
  "sameText (c # p) s \<longleftrightarrow> (\<exists>x t. s = x # t \<and> sameLetter c x \<and> sameText p t)"
  by (auto simp: sameText_def sameLetter_def map_eq_Cons_conv)

lemma sameText_append:
  "sameText (p @ q) s \<longleftrightarrow> (\<exists>a b. s = a @ b \<and> sameText p a \<and> sameText q b)"
proof
  assume "sameText (p @ q) s"
  then have "map canonicalize s = map canonicalize p @ map canonicalize q"
    by (simp add: sameText_def)
  then obtain a b where "s = a @ b" "map canonicalize p = map canonicalize a"
    "map canonicalize q = map canonicalize b"
    unfolding map_eq_append_conv by blast
  then have "s = a @ b \<and> sameText p a \<and> sameText q b"
    by (simp add: sameText_def)
  then show "\<exists>a b. s = a @ b \<and> sameText p a \<and> sameText q b"
    by blast
next
  assume "\<exists>a b. s = a @ b \<and> sameText p a \<and> sameText q b"
  then show "sameText (p @ q) s"
    by (auto simp: sameText_def)
qed

lemma conc_Class:
  "{u @ v | u v. (\<exists>c. u = [c] \<and> P c) \<and> Q v} = {c # v | c v. P c \<and> Q v}"
proof (intro set_eqI iffI)
  fix w
  assume "w \<in> {c # v | c v. P c \<and> Q v}"
  then obtain c v where "w = [c] @ v" "\<exists>d. [c] = [d] \<and> P d" "Q v"
    by auto
  then show "w \<in> {u @ v | u v. (\<exists>c. u = [c] \<and> P c) \<and> Q v}"
    by blast
qed auto

lemma lang_seqs_Nil [simp]: "lang (seqs []) = {[]}"
  by (simp add: seqs_def)

lemma lang_seqs_Cons [simp]:
  "lang (seqs (r # rs)) = {u @ v | u v. u \<in> lang r \<and> v \<in> lang (seqs rs)}"
  by (simp add: seqs_def)

lemma lang_alts_Nil [simp]: "lang (alts []) = {}"
  by (simp add: alts_def)

lemma lang_alts_Cons [simp]: "lang (alts (r # rs)) = lang r \<union> lang (alts rs)"
  by (simp add: alts_def)

lemma lang_literalI: "lang (literalI p) = {s. sameText p s}"
proof (induction p)
  case Nil
  show ?case by (simp add: literalI_def)
next
  case (Cons c p)
  have "lang (literalI (c # p)) = {x # t | x t. sameLetter c x \<and> t \<in> lang (literalI p)}"
    by (simp add: literalI_def conc_Class)
  also have "\<dots> = {s. sameText (c # p) s}"
    by (auto simp: Cons.IH sameText_Cons)
  finally show ?case .
qed

lemma lang_alts_literalI:
  "lang (alts (map literalI ps)) = {s. \<exists>p\<in>set ps. sameText p s}"
  by (induction ps) (auto simp: lang_literalI)

lemma star_Class: "star {[c] | c. P c} = {w. \<forall>c\<in>set w. P c}"
proof (intro set_eqI iffI)
  fix w
  assume "w \<in> star {[c] | c. P c}"
  then show "w \<in> {w. \<forall>c\<in>set w. P c}"
    by (induction rule: star.induct) auto
next
  fix w
  assume "w \<in> {w. \<forall>c\<in>set w. P c}"
  then have "\<forall>c\<in>set w. P c" by simp
  then show "w \<in> star {[c] | c. P c}"
  proof (induction w)
    case Nil
    show ?case by (rule star_empty)
  next
    case (Cons a w)
    then have "[a] \<in> {[c] | c. P c}" and "w \<in> star {[c] | c. P c}"
      by auto
    then have "[a] @ w \<in> star {[c] | c. P c}"
      by (rule star_more)
    then show ?case by simp
  qed
qed

lemma lang_Star_Class: "lang (Star (Class P)) = {w. \<forall>c\<in>set w. P c}"
  by (simp add: star_Class)

lemma lang_oneOrMore_Class:
  "lang (oneOrMore (Class P)) = {w. w \<noteq> [] \<and> (\<forall>c\<in>set w. P c)}"
proof -
  have "lang (oneOrMore (Class P)) = {c # v | c v. P c \<and> v \<in> {w. \<forall>x\<in>set w. P x}}"
    by (simp add: oneOrMore_def star_Class conc_Class)
  also have "\<dots> = {w. w \<noteq> [] \<and> (\<forall>c\<in>set w. P c)}"
  proof (intro set_eqI iffI)
    fix w
    assume "w \<in> {w. w \<noteq> [] \<and> (\<forall>c\<in>set w. P c)}"
    then obtain c v where "w = c # v" "P c" "\<forall>x\<in>set v. P x"
      by (cases w) auto
    then show "w \<in> {c # v | c v. P c \<and> v \<in> {w. \<forall>x\<in>set w. P x}}"
      by auto
  qed auto
  finally show ?thesis .
qed

lemma lang_optional: "lang (optional r) = lang r \<union> {[]}"
  by (simp add: optional_def)

lemma http_text:
  "sameText ''http://'' w \<longleftrightarrow> (\<exists>h c. w = h @ c \<and> sameText ''http'' h \<and> sameText ''://'' c)"
  using sameText_append [of "''http''" "''://''" w] by simp

lemma https_text:
  "sameText ''https://'' w \<longleftrightarrow>
     (\<exists>h x c. w = h @ x # c \<and> sameText ''http'' h \<and> sameLetter CHR ''s'' x \<and> sameText ''://'' c)"
  using sameText_append [of "''http''" "''s://''" w] sameText_Cons [of "CHR ''s''" "''://''"]
  by simp blast

lemma www_text:
  "sameText ''www.'' w \<longleftrightarrow> (\<exists>h x. w = h @ [x] \<and> sameText ''www'' h \<and> sameLetter CHR ''.'' x)"
  using sameText_append [of "''www''" "''.''" w] sameText_Cons [of "CHR ''.''" "[]"]
  by simp blast

lemma seqs_intro: "a \<in> lang r \<Longrightarrow> b \<in> lang (seqs rs) \<Longrightarrow> a @ b \<in> lang (seqs (r # rs))"
  by auto

lemma in_seqs_Cons:
  "u \<in> lang (seqs (r # rs)) \<longleftrightarrow> (\<exists>a b. u = a @ b \<and> a \<in> lang r \<and> b \<in> lang (seqs rs))"
  by auto

lemma in_seqs_Nil: "u \<in> lang (seqs []) \<longleftrightarrow> u = []"
  by simp

lemma in_alt1:
  "u \<in> lang (seqs [literalI ''http'', optional (Class (sameLetter CHR ''s'')), literalI ''://'',
                  oneOrMore (Class notSpace)]) \<longleftrightarrow>
   (\<exists>w n. u = w @ n \<and> (sameText ''http://'' w \<or> sameText ''https://'' w) \<and>
          n \<noteq> [] \<and> (\<forall>c\<in>set n. notSpace c))"
  (is "?lhs \<longleftrightarrow> ?rhs")
proof
  assume ?lhs
  then obtain h s c n where "u = h @ s @ c @ n @ []"
    and "h \<in> lang (literalI ''http'')" and "s \<in> lang (optional (Class (sameLetter CHR ''s'')))"
    and "c \<in> lang (literalI ''://'')" and "n \<in> lang (oneOrMore (Class notSpace))"
    unfolding in_seqs_Cons in_seqs_Nil by blast
  then have u: "u = h @ s @ c @ n" and h: "sameText ''http'' h"
    and s: "s = [] \<or> (\<exists>x. s = [x] \<and> sameLetter CHR ''s'' x)" and c: "sameText ''://'' c"
    and n: "n \<noteq> []" "\<forall>c\<in>set n. notSpace c"
    by (auto simp: lang_literalI lang_optional lang_oneOrMore_Class)
  from s have "sameText ''http://'' (h @ s @ c) \<or> sameText ''https://'' (h @ s @ c)"
  proof
    assume "s = []"
    with h c have "sameText ''http://'' (h @ s @ c)"
      unfolding http_text by auto
    then show ?thesis ..
  next
    assume "\<exists>x. s = [x] \<and> sameLetter CHR ''s'' x"
    then obtain x where "s = [x]" "sameLetter CHR ''s'' x" by blast
    with h c have "sameText ''https://'' (h @ s @ c)"
      unfolding https_text by auto
    then show ?thesis ..
  qed
  moreover from u have "u = (h @ s @ c) @ n" by simp
  ultimately show ?rhs using n by blast
next
  assume ?rhs
  then obtain w n where u: "u = w @ n"
    and w: "sameText ''http://'' w \<or> sameText ''https://'' w"
    and n: "n \<noteq> []" "\<forall>c\<in>set n. notSpace c"
    by blast
  from n have tail: "n \<in> lang (seqs [oneOrMore (Class notSpace)])"
    by (simp add: lang_oneOrMore_Class)
  from w show ?lhs
  proof
    assume "sameText ''http://'' w"
    then obtain h c where "w = h @ c" "sameText ''http'' h" "sameText ''://'' c"
      unfolding http_text by blast
    then have "h @ [] @ c @ n \<in> lang (seqs [literalI ''http'', optional (Class (sameLetter CHR ''s'')),
                  literalI ''://'', oneOrMore (Class notSpace)])"
      using tail by (intro seqs_intro) (simp_all add: lang_literalI lang_optional)
    with \<open>w = h @ c\<close> u show ?lhs by simp
  next
    assume "sameText ''https://'' w"
    then obtain h x c where "w = h @ x # c" "sameText ''http'' h" "sameLetter CHR ''s'' x"
      "sameText ''://'' c"
      unfolding https_text by blast
    then have "h @ [x] @ c @ n \<in> lang (seqs [literalI ''http'', optional (Class (sameLetter CHR ''s'')),
                  literalI ''://'', oneOrMore (Class notSpace)])"
      using tail by (intro seqs_intro) (simp_all add: lang_literalI lang_optional)
    with \<open>w = h @ x # c\<close> u show ?lhs by simp
  qed
qed

lemma in_alt2:
  "u \<in> lang (seqs [literalI ''www'', Class (sameLetter CHR ''.''), oneOrMore (Class notSpace)]) \<longleftrightarrow>
   (\<exists>w n. u = w @ n \<and> sameText ''www.'' w \<and> n \<noteq> [] \<and> (\<forall>c\<in>set n. notSpace c))"
  (is "?lhs \<longleftrightarrow> ?rhs")
proof
  assume ?lhs
  then obtain h y n where "u = h @ y @ n @ []"
    and "h \<in> lang (literalI ''www'')" and "y \<in> lang (Class (sameLetter CHR ''.''))"
    and "n \<in> lang (oneOrMore (Class notSpace))"
    unfolding in_seqs_Cons in_seqs_Nil by blast
  then obtain x where u: "u = h @ [x] @ n" and h: "sameText ''www'' h"
    and x: "sameLetter CHR ''.'' x" and n: "n \<noteq> []" "\<forall>c\<in>set n. notSpace c"
    by (auto simp: lang_literalI lang_oneOrMore_Class)
  from h x have "sameText ''www.'' (h @ [x])"
    unfolding www_text by blast
  moreover from u have "u = (h @ [x]) @ n" by simp
  ultimately show ?rhs using n by blast
next
  assume ?rhs
  then obtain w n where u: "u = w @ n" and w: "sameText ''www.'' w"
    and n: "n \<noteq> []" "\<forall>c\<in>set n. notSpace c"
    by blast
  from n have tail: "n \<in> lang (seqs [oneOrMore (Class notSpace)])"
    by (simp add: lang_oneOrMore_Class)
  from w obtain h x where "w = h @ [x]" "sameText ''www'' h" "sameLetter CHR ''.'' x"
    unfolding www_text by blast
  then have "h @ [x] @ n \<in> lang (seqs [literalI ''www'', Class (sameLetter CHR ''.''),
                oneOrMore (Class notSpace)])"
    using tail by (intro seqs_intro) (simp_all add: lang_literalI)
  with \<open>w = h @ [x]\<close> u show ?lhs by simp
qed

lemma in_alt3:
  "u \<in> lang (seqs [oneOrMore (Class notSpace), Class (sameLetter CHR ''.''),
                  alts (map literalI urlSuffixes), Star (Class notSpace)]) \<longleftrightarrow>
   (\<exists>n w r. u = n @ w @ r \<and> n \<noteq> [] \<and> (\<forall>c\<in>set n. notSpace c) \<and>
            (\<exists>s\<in>set urlSuffixes. sameText (CHR ''.'' # s) w) \<and> (\<forall>c\<in>set r. notSpace c))"
  (is "?lhs \<longleftrightarrow> ?rhs")
proof
  assume ?lhs
  then obtain n y t r where "u = n @ y @ t @ r @ []"
    and "n \<in> lang (oneOrMore (Class notSpace))" and "y \<in> lang (Class (sameLetter CHR ''.''))"
    and "t \<in> lang (alts (map literalI urlSuffixes))" and "r \<in> lang (Star (Class notSpace))"
    unfolding in_seqs_Cons in_seqs_Nil by blast
  then obtain x where u: "u = n @ [x] @ t @ r" and n: "n \<noteq> []" "\<forall>c\<in>set n. notSpace c"
    and x: "sameLetter CHR ''.'' x" and t: "\<exists>s\<in>set urlSuffixes. sameText s t"
    and r: "\<forall>c\<in>set r. notSpace c"
    by (auto simp: lang_alts_literalI lang_oneOrMore_Class star_Class)
  from x t have "\<exists>s\<in>set urlSuffixes. sameText (CHR ''.'' # s) (x # t)"
    unfolding sameText_Cons by blast
  moreover from u have "u = n @ (x # t) @ r" by simp
  ultimately show ?rhs using n r by blast
next
  assume ?rhs
  then obtain n w r s where u: "u = n @ w @ r" and n: "n \<noteq> []" "\<forall>c\<in>set n. notSpace c"
    and s: "s \<in> set urlSuffixes" "sameText (CHR ''.'' # s) w" and r: "\<forall>c\<in>set r. notSpace c"
    by blast
  from s(2) obtain x t where w: "w = x # t" and x: "sameLetter CHR ''.'' x" and t: "sameText s t"
    unfolding sameText_Cons by blast
  from r have tail: "r \<in> lang (seqs [Star (Class notSpace)])"
    by (simp add: star_Class)
  from s(1) t have "t \<in> lang (alts (map literalI urlSuffixes))"
    unfolding lang_alts_literalI by blast
  then have "n @ [x] @ t @ r \<in> lang (seqs [oneOrMore (Class notSpace), Class (sameLetter CHR ''.''),
                  alts (map literalI urlSuffixes), Star (Class notSpace)])"
    using tail n x by (intro seqs_intro) (simp_all add: lang_oneOrMore_Class)
  with w u show ?lhs by simp
qed

lemma in_lang_urlRegex:
  "u \<in> lang urlRegex \<longleftrightarrow>
     (\<exists>w n. u = w @ n \<and>
        (sameText ''http://'' w \<or> sameText ''https://'' w \<or> sameText ''www.'' w) \<and>
        n \<noteq> [] \<and> (\<forall>c\<in>set n. notSpace c)) \<or>
     (\<exists>n w r. u = n @ w @ r \<and> n \<noteq> [] \<and> (\<forall>c\<in>set n. notSpace c) \<and>
        (\<exists>s\<in>set urlSuffixes. sameText (CHR ''.'' # s) w) \<and> (\<forall>c\<in>set r. notSpace c))"
proof -
  have eq: "urlRegex =
     alts [seqs [literalI ''http'', optional (Class (sameLetter CHR ''s'')), literalI ''://'',
                 oneOrMore (Class notSpace)],
           seqs [literalI ''www'', Class (sameLetter CHR ''.''), oneOrMore (Class notSpace)],
           seqs [oneOrMore (Class notSpace), Class (sameLetter CHR ''.''),
                 alts (map literalI urlSuffixes), Star (Class notSpace)]]"
    by (simp add: urlRegex_def urlSuffixes_def)
  show ?thesis
    unfolding eq lang_alts_Cons lang_alts_Nil Un_iff empty_iff in_alt1 in_alt2 in_alt3
    by blast
qed

text \<open>
  The URL filter answers exactly for the descriptions that hold the URL pattern.
\<close>

lemma containsUrls_urlPattern: "containsUrls d \<longleftrightarrow> urlPattern d"
proof
  assume "containsUrls d"
  then obtain t u v where d: "d = t @ u @ v" and u: "u \<in> lang urlRegex"
    unfolding containsUrls_def matchesWithin_lang by blast
  from u [unfolded in_lang_urlRegex] show "urlPattern d"
  proof
    assume "\<exists>w n. u = w @ n \<and>
        (sameText ''http://'' w \<or> sameText ''https://'' w \<or> sameText ''www.'' w) \<and>
        n \<noteq> [] \<and> (\<forall>c\<in>set n. notSpace c)"
    then obtain w x n' where "u = w @ x # n'"
      and w: "sameText ''http://'' w \<or> sameText ''https://'' w \<or> sameText ''www.'' w"
      and x: "\<not> isWhiteSpace x"
      by (auto simp: notSpace_def neq_Nil_conv)
    with d have "d = t @ w @ x # (n' @ v)" by simp
    with w x show ?thesis unfolding urlPattern_def by blast
  next
    assume "\<exists>n w r. u = n @ w @ r \<and> n \<noteq> [] \<and> (\<forall>c\<in>set n. notSpace c) \<and>
        (\<exists>s\<in>set urlSuffixes. sameText (CHR ''.'' # s) w) \<and> (\<forall>c\<in>set r. notSpace c)"
    then obtain n w r where "u = n @ w @ r" and n: "n \<noteq> []" "\<forall>c\<in>set n. notSpace c"
      and w: "\<exists>s\<in>set urlSuffixes. sameText (CHR ''.'' # s) w"
      by blast
    from n obtain n' x where "n = n' @ [x]" and x: "\<not> isWhiteSpace x"
      by (cases n rule: rev_cases) (auto simp: notSpace_def)
    with d \<open>u = n @ w @ r\<close> have "d = (t @ n') @ x # w @ (r @ v)" by simp
    with w x show ?thesis unfolding urlPattern_def by blast
  qed
next
  assume "urlPattern d"
  then obtain pre w x post where x: "\<not> isWhiteSpace x"
    and cases: "d = pre @ w @ x # post \<and>
           (sameText ''http://'' w \<or> sameText ''https://'' w \<or> sameText ''www.'' w) \<or>
         d = pre @ x # w @ post \<and> (\<exists>s\<in>set urlSuffixes. sameText (CHR ''.'' # s) w)"
    unfolding urlPattern_def by blast
  from cases have "\<exists>t u v. d = t @ u @ v \<and> u \<in> lang urlRegex"
  proof
    assume a: "d = pre @ w @ x # post \<and>
           (sameText ''http://'' w \<or> sameText ''https://'' w \<or> sameText ''www.'' w)"
    with x have "w @ [x] \<in> lang urlRegex"
      unfolding in_lang_urlRegex by (intro disjI1 exI [of _ w] exI [of _ "[x]"]) (simp add: notSpace_def)
    moreover from a have "d = pre @ (w @ [x]) @ post" by simp
    ultimately show ?thesis by blast
  next
    assume b: "d = pre @ x # w @ post \<and> (\<exists>s\<in>set urlSuffixes. sameText (CHR ''.'' # s) w)"
    with x have "[x] @ w @ [] \<in> lang urlRegex"
      unfolding in_lang_urlRegex
      by (intro disjI2 exI [of _ "[x]"] exI [of _ w] exI [of _ "[]"]) (simp add: notSpace_def)
    moreover from b have "d = pre @ ([x] @ w @ []) @ post" by simp
    ultimately show ?thesis by blast
  qed
  then show "containsUrls d"
    unfolding containsUrls_def matchesWithin_lang .
qed

section \<open>The validators at the examples of the specification\<close>

lemma isValidEmail_examples:
  "isValidEmail ''a@b.com''" "\<not> isValidEmail ''not-an-email''"
  by (simp_all add: isValidEmail_def emailRegex_def string_evals)

lemma isValidZipCode_examples:
  "isValidZipCode ''67202''" "isValidZipCode ''67202-1234''" "\<not> isValidZipCode ''abc''"
  by (simp_all add: isValidZipCode_def zipRegex_def string_evals)

lemma isGibberish_examples:
  "isGibberish ''bcdfg''" "isGibberish ''Mississsippi''" "\<not> isGibberish ''John''"
  "\<not> isGibberish []" "\<not> isGibberish ''x''"
  by (simp_all add: isGibberish_def string_evals)

section \<open>Phone numbers\<close>

lemma length_filter_card:
  "length (filter P xs) = card {i. i < length xs \<and> P (xs ! i)}"
  by (rule length_filter_conv_card)

text \<open>
  Claim C8. \<open>isValidPhone\<close> holds exactly of the strings with at least ten digit
  characters, the digits being counted by position in the string as given; it accepts
  \<^verbatim>\<open>(316) 684-4400\<close> and refuses \<^verbatim>\<open>12345\<close>.
\<close>

theorem isValidPhone_digit_count:
  "(isValidPhone s \<longleftrightarrow> 10 \<le> card {i. i < length s \<and> s ! i \<in> set ''0123456789''}) \<and>
   isValidPhone ''(316) 684-4400'' \<and> \<not> isValidPhone ''12345''"
proof (intro conjI)
  show "isValidPhone s \<longleftrightarrow> 10 \<le> card {i. i < length s \<and> s ! i \<in> set ''0123456789''}"
    unfolding isValidPhone_def Let_def isDigit_def not_not length_filter_card ..
  show "isValidPhone ''(316) 684-4400''"
    by (simp add: isValidPhone_def isDigit_def)
  show "\<not> isValidPhone ''12345''"
    by (simp add: isValidPhone_def isDigit_def)
qed

section \<open>Gibberish\<close>

lemma takeWhile_two:
  "2 \<le> length (takeWhile (\<lambda>x. x = c) cs) \<longleftrightarrow> (\<exists>rest. cs = c # c # rest)"
proof (cases cs)
  case Nil
  then show ?thesis by simp
next
  case (Cons a as)
  then show ?thesis by (cases as) auto
qed

lemma matchRepeatedChars_Cons_empty:
  "matchRepeatedChars (c # cs) \<noteq> [] \<longleftrightarrow>
     (\<not> isLineTerminator c \<and> (\<exists>rest. cs = c # c # rest)) \<or> matchRepeatedChars cs \<noteq> []"
  unfolding takeWhile_two [symmetric] by simp

lemma hasTriple_Cons:
  "hasTriple (c # cs) \<longleftrightarrow>
     (c \<notin> {CHR 0x0A, CHR 0x0D} \<and> (\<exists>rest. cs = c # c # rest)) \<or> hasTriple cs"
proof
  assume "hasTriple (c # cs)"
  then obtain i where i: "i + 2 < length (c # cs)" "(c # cs) ! i = (c # cs) ! (i + 1)"
    "(c # cs) ! (i + 1) = (c # cs) ! (i + 2)" "(c # cs) ! i \<notin> {CHR 0x0A, CHR 0x0D}"
    unfolding hasTriple_def by blast
  show "(c \<notin> {CHR 0x0A, CHR 0x0D} \<and> (\<exists>rest. cs = c # c # rest)) \<or> hasTriple cs"
  proof (cases i)
    case 0
    with i obtain a b rest where cs: "cs = a # b # rest"
      by (cases cs; cases "tl cs") auto
    with 0 i show ?thesis by auto
  next
    case (Suc j)
    with i have "j + 2 < length cs \<and> cs ! j = cs ! (j + 1) \<and> cs ! (j + 1) = cs ! (j + 2) \<and>
      cs ! j \<notin> {CHR 0x0A, CHR 0x0D}"
      by simp
    then show ?thesis unfolding hasTriple_def by blast
  qed
next
  assume "(c \<notin> {CHR 0x0A, CHR 0x0D} \<and> (\<exists>rest. cs = c # c # rest)) \<or> hasTriple cs"
  then show "hasTriple (c # cs)"
  proof
    assume "c \<notin> {CHR 0x0A, CHR 0x0D} \<and> (\<exists>rest. cs = c # c # rest)"
    then have "0 + 2 < length (c # cs) \<and> (c # cs) ! 0 = (c # cs) ! (0 + 1) \<and>
      (c # cs) ! (0 + 1) = (c # cs) ! (0 + 2) \<and> (c # cs) ! 0 \<notin> {CHR 0x0A, CHR 0x0D}"
      by auto
    then show ?thesis unfolding hasTriple_def by blast
  next
    assume "hasTriple cs"
    then obtain j where "j + 2 < length cs" "cs ! j = cs ! (j + 1)" "cs ! (j + 1) = cs ! (j + 2)"
      "cs ! j \<notin> {CHR 0x0A, CHR 0x0D}"
      unfolding hasTriple_def by blast
    then have "Suc j + 2 < length (c # cs) \<and> (c # cs) ! Suc j = (c # cs) ! (Suc j + 1) \<and>
      (c # cs) ! (Suc j + 1) = (c # cs) ! (Suc j + 2) \<and> (c # cs) ! Suc j \<notin> {CHR 0x0A, CHR 0x0D}"
      by simp
    then show ?thesis unfolding hasTriple_def by blast
  qed
qed

lemma matchRepeatedChars_hasTriple: "matchRepeatedChars s \<noteq> [] \<longleftrightarrow> hasTriple s"
proof (induction s)
  case Nil
  show ?case by (simp add: hasTriple_def)
next
  case (Cons c cs)
  show ?case
    unfolding matchRepeatedChars_Cons_empty hasTriple_Cons Cons.IH isLineTerminator_def ..
qed

lemma no_vowels: "length (filter isVowel s) = 0 \<longleftrightarrow> set s \<inter> set ''aeiouAEIOU'' = {}"
  by (auto simp: isVowel_def filter_empty_conv)

lemma consonant_count:
  "length s - length (filter isVowel s) = card {i. i < length s \<and> s ! i \<notin> set ''aeiouAEIOU''}"
proof -
  have "length (filter isVowel s) + length (filter (\<lambda>c. \<not> isVowel c) s) = length s"
    by (rule sum_length_filter_compl)
  then have "length s - length (filter isVowel s) = length (filter (\<lambda>c. \<not> isVowel c) s)"
    by simp
  also have "\<dots> = card {i. i < length s \<and> \<not> isVowel (s ! i)}"
    by (rule length_filter_card)
  finally show ?thesis by (simp add: isVowel_def)
qed

text \<open>
  What \<open>isGibberish\<close> decides: the text has at least two characters and has no vowel,
  or more than 0.8 of its characters are no vowels, or some character that is no line
  terminator stands three times in a row.
\<close>

lemma isGibberish_iff:
  "isGibberish s \<longleftrightarrow>
     2 \<le> length s \<and>
     (set s \<inter> set ''aeiouAEIOU'' = {} \<or>
      (0.8 :: rat) < of_nat (card {i. i < length s \<and> s ! i \<notin> set ''aeiouAEIOU''}) / of_nat (length s) \<or>
      (\<exists>i. i + 2 < length s \<and> s ! i = s ! (i + 1) \<and> s ! (i + 1) = s ! (i + 2) \<and>
           s ! i \<notin> {CHR 0x0A, CHR 0x0D}))"
proof (cases "2 \<le> length s")
  case False
  then show ?thesis by (auto simp: isGibberish_def)
next
  case True
  then have "s \<noteq> []" by auto
  with True show ?thesis
    unfolding isGibberish_def Let_def
    by (simp only: no_vowels consonant_count matchRepeatedChars_hasTriple hasTriple_def
          not_less [symmetric] length_greater_0_conv) auto
qed

text \<open>
  Claim C4 says that every text of at least two characters with a run of three identical
  characters is gibberish. The text \<^verbatim>\<open>ae\<close> followed by three line feeds has five
  characters, two of them vowels, and the run of three line feeds at positions 2 to 4,
  and \<open>isGibberish\<close> is false of it: \<^verbatim>\<open>.\<close> in \<^verbatim>\<open>/(.)\1{2,}/\<close> matches no line
  terminator.
\<close>

theorem isGibberish_newline_run:
  "\<not> isGibberish ''ae\<newline>\<newline>\<newline>'' \<and> 2 \<le> length ''ae\<newline>\<newline>\<newline>'' \<and>
   ''ae\<newline>\<newline>\<newline>'' ! 2 = ''ae\<newline>\<newline>\<newline>'' ! 3 \<and>
   ''ae\<newline>\<newline>\<newline>'' ! 3 = ''ae\<newline>\<newline>\<newline>'' ! 4"
  by (simp add: isGibberish_def string_evals)

lemma trim_empty_iff: "trim s = [] \<longleftrightarrow> (\<forall>c\<in>set s. isWhiteSpace c)"
proof
  assume "\<forall>c\<in>set s. isWhiteSpace c"
  then show "trim s = []"
    by (auto simp: trim_def dropWhile_eq_Nil_conv dest: set_dropWhileD)
next
  assume empty: "trim s = []"
  show "\<forall>c\<in>set s. isWhiteSpace c"
  proof (rule ccontr)
    assume "\<not> (\<forall>c\<in>set s. isWhiteSpace c)"
    then have ne: "dropWhile isWhiteSpace s \<noteq> []" by (simp add: dropWhile_eq_Nil_conv)
    then have "\<not> isWhiteSpace (hd (dropWhile isWhiteSpace s))"
      by (rule hd_dropWhile)
    moreover have "hd (dropWhile isWhiteSpace s) \<in> set (rev (dropWhile isWhiteSpace s))"
      using ne by simp
    moreover from empty have "\<forall>c\<in>set (rev (dropWhile isWhiteSpace s)). isWhiteSpace c"
      by (simp add: trim_def dropWhile_eq_Nil_conv)
    ultimately show False by blast
  qed
qed

section \<open>Properties of the rate limiter\<close>

lemma checkRateLimit_fresh:
  "(case store identifier of None \<Rightarrow> True | Some r \<Rightarrow> now > resetTime r) \<Longrightarrow>
   checkRateLimit store now identifier maxRequests windowMs =
     (True, store(identifier \<mapsto> \<lparr>count = 1, resetTime = now + windowMs\<rparr>))"
  by (auto simp: checkRateLimit_def split: option.splits)

lemma checkRateLimit_within:
  "store identifier = Some r \<Longrightarrow> now \<le> resetTime r \<Longrightarrow>
   checkRateLimit store now identifier maxRequests windowMs =
     (if count r \<ge> maxRequests then (False, store)
      else (True, store(identifier \<mapsto> r\<lparr>count := count r + 1\<rparr>)))"
  by (simp add: checkRateLimit_def)

lemma fst_checkRateLimits_Cons:
  "fst (checkRateLimits store maxRequests ((identifier, now, windowMs) # calls)) =
     fst (checkRateLimit store now identifier maxRequests windowMs) #
     fst (checkRateLimits (snd (checkRateLimit store now identifier maxRequests windowMs))
            maxRequests calls)"
  by (simp add: split_beta)

lemma snd_checkRateLimits_Cons:
  "snd (checkRateLimits store maxRequests ((identifier, now, windowMs) # calls)) =
     snd (checkRateLimits (snd (checkRateLimit store now identifier maxRequests windowMs))
            maxRequests calls)"
  by (simp add: split_beta)

text \<open>
  Claim C2. With \<open>maxRequests = 3\<close> and \<open>windowMs = 60000\<close>, for an identifier that has
  no record or an expired one at the first call (time \<open>t1\<close>): the first call and two
  further calls no later than the window's expiry \<open>t1 + 60000\<close> are allowed, a fourth
  call no later than the expiry is denied, and a call after the expiry (time \<open>t5\<close>)
  is allowed and leaves the record at count 1 with expiry \<open>t5 + 60000\<close>.
\<close>

theorem checkRateLimit_window:
  assumes fresh: "case store identifier of None \<Rightarrow> True | Some r \<Rightarrow> t1 > resetTime r"
    and t2: "t2 \<le> t1 + 60000" and t3: "t3 \<le> t1 + 60000" and t4: "t4 \<le> t1 + 60000"
    and t5: "t5 > t1 + 60000"
  shows "checkRateLimits store 3
           [(identifier, t1, 60000), (identifier, t2, 60000), (identifier, t3, 60000),
            (identifier, t4, 60000), (identifier, t5, 60000)]
         = ([True, True, True, False, True],
            store(identifier \<mapsto> \<lparr>count = 1, resetTime = t5 + 60000\<rparr>))"
proof -
  let ?s1 = "store(identifier \<mapsto> \<lparr>count = 1, resetTime = t1 + 60000\<rparr>)"
  let ?s2 = "store(identifier \<mapsto> \<lparr>count = 2, resetTime = t1 + 60000\<rparr>)"
  let ?s3 = "store(identifier \<mapsto> \<lparr>count = 3, resetTime = t1 + 60000\<rparr>)"
  have c1: "checkRateLimit store t1 identifier 3 60000 = (True, ?s1)"
    using fresh by (rule checkRateLimit_fresh)
  have c2: "checkRateLimit ?s1 t2 identifier 3 60000 = (True, ?s2)"
    using t2 by (simp add: checkRateLimit_within)
  have c3: "checkRateLimit ?s2 t3 identifier 3 60000 = (True, ?s3)"
    using t3 by (simp add: checkRateLimit_within)
  have c4: "checkRateLimit ?s3 t4 identifier 3 60000 = (False, ?s3)"
    using t4 by (simp add: checkRateLimit_within)
  have c5: "checkRateLimit ?s3 t5 identifier 3 60000
              = (True, store(identifier \<mapsto> \<lparr>count = 1, resetTime = t5 + 60000\<rparr>))"
    using t5 by (simp add: checkRateLimit_fresh)
  show ?thesis
    by (simp add: c1 c2 c3 c4 c5)
qed

theorem checkRateLimit_window_witness:
  "checkRateLimits Map.empty 3
     [(''10.0.0.1'', 1000, 60000), (''10.0.0.1'', 2000, 60000), (''10.0.0.1'', 3000, 60000),
      (''10.0.0.1'', 61000, 60000), (''10.0.0.1'', 61001, 60000)]
   = ([True, True, True, False, True],
      Map.empty(''10.0.0.1'' \<mapsto> \<lparr>count = 1, resetTime = 121001\<rparr>))"
  using checkRateLimit_window [where store = Map.empty and ?identifier = "''10.0.0.1''"
      and ?t1.0 = 1000 and ?t2.0 = 2000 and ?t3.0 = 3000 and ?t4.0 = 61000 and ?t5.0 = 61001]
  by simp

lemma checkRateLimit_countsBounded:
  assumes inv: "countsBounded store maxRequests" and pos: "1 \<le> maxRequests"
  shows "countsBounded (snd (checkRateLimit store now identifier maxRequests windowMs)) maxRequests"
proof (cases "store identifier")
  case None
  with inv pos show ?thesis
    by (simp add: countsBounded_def checkRateLimit_def)
next
  case (Some r)
  from inv Some have r: "1 \<le> count r \<and> count r \<le> maxRequests"
    unfolding countsBounded_def by blast
  show ?thesis
    unfolding countsBounded_def
  proof (intro allI impI)
    fix k q
    assume q: "snd (checkRateLimit store now identifier maxRequests windowMs) k = Some q"
    show "1 \<le> count q \<and> count q \<le> maxRequests"
    proof (cases "k = identifier")
      case True
      with q Some r pos show ?thesis
        by (auto simp: checkRateLimit_def split: if_splits)
    next
      case False
      with q Some have "store k = Some q"
        by (auto simp: checkRateLimit_def split: if_splits)
      with inv show ?thesis
        unfolding countsBounded_def by blast
    qed
  qed
qed

lemma checkRateLimits_countsBounded:
  assumes "countsBounded store maxRequests" and "1 \<le> maxRequests"
  shows "countsBounded (snd (checkRateLimits store maxRequests calls)) maxRequests"
  using assms
proof (induction calls arbitrary: store)
  case Nil
  then show ?case by simp
next
  case (Cons call calls)
  obtain ident now windowMs where call: "call = (ident, now, windowMs)" by (cases call)
  have "countsBounded (snd (checkRateLimit store now ident maxRequests windowMs)) maxRequests"
    using Cons.prems by (rule checkRateLimit_countsBounded)
  then show ?case
    unfolding call snd_checkRateLimits_Cons using Cons.prems(2) by (rule Cons.IH)
qed

text \<open>
  Claim C9. The table starts empty. After any sequence of calls with \<open>maxRequests = 3\<close>
  (any identifiers, any clock readings, any window length), every record in the table
  has a count between 1 and 3: neither an allowed nor a denied call takes a count past
  \<open>maxRequests\<close>.
\<close>

theorem checkRateLimit_count_invariant:
  assumes "snd (checkRateLimits Map.empty 3 calls) identifier = Some r"
  shows "1 \<le> count r \<and> count r \<le> 3"
proof -
  have "countsBounded Map.empty 3"
    by (simp add: countsBounded_def)
  then have "countsBounded (snd (checkRateLimits Map.empty 3 calls)) 3"
    by (rule checkRateLimits_countsBounded) simp
  then show ?thesis
    using assms unfolding countsBounded_def by blast
qed

theorem checkRateLimit_count_invariant_witness:
  "snd (checkRateLimits Map.empty 3
          [(''10.0.0.1'', 1000, 60000), (''10.0.0.1'', 2000, 60000), (''10.0.0.1'', 3000, 60000),
           (''10.0.0.1'', 4000, 60000), (''10.0.0.1'', 5000, 60000)]) ''10.0.0.1''
     = Some \<lparr>count = 3, resetTime = 61000\<rparr> \<and>
   1 \<le> count \<lparr>count = 3, resetTime = 61000\<rparr> \<and> count \<lparr>count = 3, resetTime = 61000\<rparr> \<le> 3"
proof -
  have run: "snd (checkRateLimits Map.empty 3
          [(''10.0.0.1'', 1000, 60000), (''10.0.0.1'', 2000, 60000), (''10.0.0.1'', 3000, 60000),
           (''10.0.0.1'', 4000, 60000), (''10.0.0.1'', 5000, 60000)]) ''10.0.0.1''
     = Some \<lparr>count = 3, resetTime = 61000\<rparr>"
    by (simp add: checkRateLimit_def)
  from run checkRateLimit_count_invariant [OF run] show ?thesis
    by simp
qed

lemma checkRateLimit_denied:
  "\<not> fst (checkRateLimit store now identifier maxRequests windowMs) \<Longrightarrow>
   snd (checkRateLimit store now identifier maxRequests windowMs) = store"
  by (cases "store identifier") (auto simp: checkRateLimit_def split: if_splits)

lemma checkRateLimits_denied:
  "set (fst (checkRateLimits store maxRequests calls)) \<subseteq> {False} \<Longrightarrow>
   snd (checkRateLimits store maxRequests calls) = store"
proof (induction calls arbitrary: store)
  case Nil
  then show ?case by simp
next
  case (Cons call calls)
  obtain ident now windowMs where call: "call = (ident, now, windowMs)" by (cases call)
  from Cons.prems have denied: "\<not> fst (checkRateLimit store now ident maxRequests windowMs)"
    unfolding call fst_checkRateLimits_Cons by simp
  then have same: "snd (checkRateLimit store now ident maxRequests windowMs) = store"
    by (rule checkRateLimit_denied)
  from Cons.prems have "set (fst (checkRateLimits store maxRequests calls)) \<subseteq> {False}"
    unfolding call fst_checkRateLimits_Cons same by simp
  then have "snd (checkRateLimits store maxRequests calls) = store"
    by (rule Cons.IH)
  then show ?case
    unfolding call snd_checkRateLimits_Cons same .
qed

text \<open>
  Claim C10. A denied call returns the table it was given, so the identifier's count
  and reset time are untouched. Hence after any run of calls that were all denied the
  table is still the one before the run, and a call for an identifier made after the
  reset time of its record is allowed, however many denied calls came in between.
\<close>

theorem checkRateLimit_denied_frame:
  "(\<not> fst (checkRateLimit store now identifier maxRequests windowMs) \<longrightarrow>
      snd (checkRateLimit store now identifier maxRequests windowMs) = store) \<and>
   (set (fst (checkRateLimits store maxRequests calls)) \<subseteq> {False} \<longrightarrow>
      snd (checkRateLimits store maxRequests calls) = store \<and>
      (\<forall>r t. store identifier = Some r \<and> t > resetTime r \<longrightarrow>
         fst (checkRateLimit (snd (checkRateLimits store maxRequests calls))
                t identifier maxRequests windowMs)))"
  by (auto simp: checkRateLimit_denied checkRateLimits_denied checkRateLimit_fresh)

theorem checkRateLimit_denied_frame_witness:
  "\<not> fst (checkRateLimit (Map.empty(''10.0.0.1'' \<mapsto> \<lparr>count = 3, resetTime = 61000\<rparr>)) 5000 ''10.0.0.1'' 3 60000) \<and>
   snd (checkRateLimit (Map.empty(''10.0.0.1'' \<mapsto> \<lparr>count = 3, resetTime = 61000\<rparr>)) 5000 ''10.0.0.1'' 3 60000)
     = Map.empty(''10.0.0.1'' \<mapsto> \<lparr>count = 3, resetTime = 61000\<rparr>) \<and>
   set (fst (checkRateLimits (Map.empty(''10.0.0.1'' \<mapsto> \<lparr>count = 3, resetTime = 61000\<rparr>)) 3
               [(''10.0.0.1'', 5000, 60000), (''10.0.0.1'', 6000, 60000), (''10.0.0.1'', 61000, 60000)])) \<subseteq> {False} \<and>
   snd (checkRateLimits (Map.empty(''10.0.0.1'' \<mapsto> \<lparr>count = 3, resetTime = 61000\<rparr>)) 3
               [(''10.0.0.1'', 5000, 60000), (''10.0.0.1'', 6000, 60000), (''10.0.0.1'', 61000, 60000)])
     = Map.empty(''10.0.0.1'' \<mapsto> \<lparr>count = 3, resetTime = 61000\<rparr>) \<and>
   fst (checkRateLimit
          (snd (checkRateLimits (Map.empty(''10.0.0.1'' \<mapsto> \<lparr>count = 3, resetTime = 61000\<rparr>)) 3
               [(''10.0.0.1'', 5000, 60000), (''10.0.0.1'', 6000, 60000), (''10.0.0.1'', 61000, 60000)]))
          61001 ''10.0.0.1'' 3 60000)"
proof -
  let ?s = "Map.empty(''10.0.0.1'' \<mapsto> \<lparr>count = 3, resetTime = 61000\<rparr>)"
  let ?calls = "[(''10.0.0.1'', 5000, 60000), (''10.0.0.1'', 6000, 60000), (''10.0.0.1'', 61000::int, 60000::int)]"
  have one: "\<not> fst (checkRateLimit ?s 5000 ''10.0.0.1'' 3 60000)"
    by (simp add: checkRateLimit_def)
  have run: "set (fst (checkRateLimits ?s 3 ?calls)) \<subseteq> {False}"
    by (simp add: checkRateLimit_def)
  have rec: "?s ''10.0.0.1'' = Some \<lparr>count = 3, resetTime = 61000\<rparr> \<and>
             61001 > resetTime \<lparr>count = 3, resetTime = 61000\<rparr>"
    by simp
  from one run rec
    checkRateLimit_denied_frame [where store = ?s and now = 5000 and ?identifier = "''10.0.0.1''"
      and maxRequests = 3 and windowMs = 60000 and calls = ?calls]
  show ?thesis
    by blast
qed

section \<open>The sample submission\<close>

lemma sampleForm_validFields: "validFields sampleForm"
  by (simp add: validFields_def sampleForm_def filled_def toString_def BLOCKED_EMAILS_def
        isValidEmail_def emailRegex_def isValidPhone_def isValidZipCode_def zipRegex_def
        isGibberish_def string_evals)

lemma sampleForm_description: "\<not> containsUrls ''Hit by a car''"
  by (simp add: containsUrls_def urlRegex_def string_evals)

lemma matchesWithin_append: "matchesPrefix r ys \<Longrightarrow> matchesWithin r (xs @ ys)"
  by (induction xs) (cases ys; simp)+

lemma containsUrls_example: "containsUrls ''Check out http://example.com''"
  using matchesWithin_append [of urlRegex "''http://example.com''" "''Check out ''"]
  by (simp add: containsUrls_def urlRegex_def string_evals)

lemma sampleRequest_clientIp: "clientIpOf (sampleRequest formData) = ''203.0.113.7''"
  by (simp add: clientIpOf_def sampleRequest_def truthy_def toString_def)


section \<open>The validation stage\<close>

lemma trim_nonempty: "trim s \<noteq> [] \<Longrightarrow> s \<noteq> []"
  by (auto simp: trim_def)

lemma filled_truthy:
  "filled v limit \<Longrightarrow> truthy v \<and> trim (toString v) \<noteq> [] \<and> length (toString v) \<le> limit"
  by (auto simp: filled_def truthy_def toString_def dest: trim_nonempty split: option.splits)

lemma firstMissingField_validFields:
  assumes "validFields formData"
  shows "firstMissingField formData requiredFields = None"
proof -
  from assms have
    "truthy (firstName formData) \<and> trim (toString (firstName formData)) \<noteq> []"
    "truthy (lastName formData) \<and> trim (toString (lastName formData)) \<noteq> []"
    "truthy (email formData) \<and> trim (toString (email formData)) \<noteq> []"
    "truthy (phone formData) \<and> trim (toString (phone formData)) \<noteq> []"
    "truthy (zipCode formData) \<and> trim (toString (zipCode formData)) \<noteq> []"
    "truthy (caseType formData) \<and> trim (toString (caseType formData)) \<noteq> []"
    unfolding validFields_def by (blast dest: filled_truthy)+
  then show ?thesis
    by (simp add: requiredFields_def getField_def)
qed

lemma firstTooLongField_validFields:
  assumes "validFields formData"
    and "case description formData of None \<Rightarrow> True | Some d \<Rightarrow> length d \<le> 1200"
  shows "firstTooLongField formData maxLengths = None"
proof -
  from assms(1) have
    "length (toString (firstName formData)) \<le> 50"
    "length (toString (lastName formData)) \<le> 50"
    "length (toString (email formData)) \<le> 100"
    "length (toString (phone formData)) \<le> 20"
    "length (toString (zipCode formData)) \<le> 10"
    "length (toString (caseType formData)) \<le> 50"
    unfolding validFields_def by (blast dest: filled_truthy)+
  moreover from assms(2) have
    "\<not> (truthy (description formData) \<and> length (toString (description formData)) > 1200)"
    by (auto simp: truthy_def toString_def split: option.splits)
  ultimately show ?thesis
    by (simp add: maxLengths_def getField_def)
qed

lemma validateSubmission_passes:
  assumes honeypot: "\<not> (truthy (website formData) \<and> trim (toString (website formData)) \<noteq> [])"
    and valid: "validFields formData"
    and descr: "case description formData of None \<Rightarrow> True
                | Some d \<Rightarrow> length d \<le> 1200 \<and> \<not> containsUrls d"
    and rate: "fst (checkRateLimit store now clientIp 3 60000)"
  shows "validateSubmission store now clientIp formData =
           (None, snd (checkRateLimit store now clientIp 3 60000))"
proof -
  from descr have short: "case description formData of None \<Rightarrow> True | Some d \<Rightarrow> length d \<le> 1200"
    by (simp split: option.splits)
  from descr have noUrl:
    "\<not> (truthy (description formData) \<and> containsUrls (toString (description formData)))"
    by (auto simp: truthy_def toString_def split: option.splits)
  from valid have checks:
    "toLowerCase (toString (email formData)) \<notin> set BLOCKED_EMAILS"
    "isValidEmail (toString (email formData))"
    "isValidPhone (toString (phone formData))"
    "isValidZipCode (toString (zipCode formData))"
    "\<not> isGibberish (toString (firstName formData))"
    "\<not> isGibberish (toString (lastName formData))"
    unfolding validFields_def by blast+
  show ?thesis
    unfolding validateSubmission_def
    using honeypot noUrl checks rate
    by (simp add: split_beta firstMissingField_validFields [OF valid]
          firstTooLongField_validFields [OF valid short])
qed

lemma validateSubmission_url:
  assumes honeypot: "\<not> (truthy (website formData) \<and> trim (toString (website formData)) \<noteq> [])"
    and valid: "validFields formData"
    and descr: "description formData = Some d" "length d \<le> 1200" "containsUrls d"
    and rate: "fst (checkRateLimit store now clientIp 3 60000)"
  shows "validateSubmission store now clientIp formData =
           (Some (errorResponse 400 ''URLs are not allowed in the description''),
            snd (checkRateLimit store now clientIp 3 60000))"
proof -
  from descr have short: "case description formData of None \<Rightarrow> True | Some d \<Rightarrow> length d \<le> 1200"
    by simp
  have "d \<noteq> []"
    using descr(3) by (auto simp: containsUrls_def urlRegex_def string_evals)
  with descr have url:
    "truthy (description formData) \<and> containsUrls (toString (description formData))"
    by (simp add: truthy_def toString_def)
  from valid have checks:
    "toLowerCase (toString (email formData)) \<notin> set BLOCKED_EMAILS"
    "isValidEmail (toString (email formData))"
    "isValidPhone (toString (phone formData))"
    "isValidZipCode (toString (zipCode formData))"
    "\<not> isGibberish (toString (firstName formData))"
    "\<not> isGibberish (toString (lastName formData))"
    unfolding validFields_def by blast+
  show ?thesis
    unfolding validateSubmission_def
    using honeypot url checks rate
    by (auto simp: split_beta firstMissingField_validFields [OF valid]
          firstTooLongField_validFields [OF valid short])
qed

lemma contactForm_validated:
  assumes "requestMethod request = ''POST''" and "json request = Some formData"
    and "validateSubmission store (dateNow world) (clientIpOf request) formData = (verdict, store')"
  shows "contactForm env world store request =
     (case verdict of
        Some rejection \<Rightarrow>
          \<lparr>response = rejection, storeAfter = store', captchaRequests = [], sentMessages = []\<rparr>
      | None \<Rightarrow>
          if truthy (recaptchaToken formData)
          then
            if \<not> truthy (RECAPTCHA_SECRET_KEY env)
            then \<lparr>response = errorResponse 500 ''reCAPTCHA not configured'',
                  storeAfter = store', captchaRequests = [], sentMessages = []\<rparr>
            else
              if \<not> success (validateRecaptcha env world (toString (recaptchaToken formData))) \<or>
                 score (validateRecaptcha env world (toString (recaptchaToken formData))) < 0.5
              then \<lparr>response = errorResponse 400 ''reCAPTCHA validation failed'',
                    storeAfter = store',
                    captchaRequests =
                      [''secret='' @ toString (RECAPTCHA_SECRET_KEY env) @ ''&response='' @
                       toString (recaptchaToken formData)],
                    sentMessages = []\<rparr>
              else sendEmail env world store'
                     [''secret='' @ toString (RECAPTCHA_SECRET_KEY env) @ ''&response='' @
                      toString (recaptchaToken formData)]
                     (clientIpOf request) formData
          else sendEmail env world store' [] (clientIpOf request) formData)"
  using assms by (simp add: contactForm_def Let_def split: option.splits)

lemma sendEmail_status:
  "status (response (sendEmail env world store verifications clientIp formData)) \<in> {200, 500}"
  by (simp add: sendEmail_def errorResponse_def Let_def split: option.splits)

lemma sendEmail_captchaRequests:
  "captchaRequests (sendEmail env world store verifications clientIp formData) = verifications"
  by (simp add: sendEmail_def Let_def split: option.splits)

lemma sendEmail_dispatches:
  assumes "truthy (ACS_CONNECTION_STRING env)"
    and "newEmailClient world (toString (ACS_CONNECTION_STRING env))"
  shows "sentMessages (sendEmail env world store verifications clientIp formData) =
           [emailMessageFor env world clientIp formData]"
  using assms by (simp add: sendEmail_def Let_def split: option.splits)


section \<open>Whole submissions\<close>

text \<open>
  Claim C3. A POST whose body parses and whose \<^verbatim>\<open>website\<close> field holds a character
  that is no white space is answered with status 400 and the error \<^verbatim>\<open>Spam detected\<close>,
  whatever the other fields, the headers, the settings, the clock, the rate-limit table
  and the collaborators are: the table is left as it was, nothing is posted to the
  verification endpoint and no message is dispatched.
\<close>

theorem contactForm_honeypot:
  assumes "requestMethod request = ''POST''" and "json request = Some formData"
    and "website formData = Some w" and "\<exists>c\<in>set w. \<not> isWhiteSpace c"
  shows "contactForm env world store request =
           \<lparr>response = errorResponse 400 ''Spam detected'', storeAfter = store,
            captchaRequests = [], sentMessages = []\<rparr>"
proof -
  from assms(4) have "trim w \<noteq> []"
    by (simp add: trim_empty_iff)
  moreover from assms(4) have "w \<noteq> []"
    by auto
  ultimately have
    "validateSubmission store (dateNow world) (clientIpOf request) formData =
       (Some (errorResponse 400 ''Spam detected''), store)"
    using assms(3) by (simp add: validateSubmission_def truthy_def toString_def)
  from contactForm_validated [OF assms(1,2) this] show ?thesis
    by simp
qed

theorem contactForm_honeypot_witness:
  "contactForm sampleEnvironment (sampleCollaborators None) Map.empty
     (sampleRequest (sampleForm\<lparr>website := Some ''http://spam.biz''\<rparr>)) =
   \<lparr>response = errorResponse 400 ''Spam detected'', storeAfter = Map.empty,
    captchaRequests = [], sentMessages = []\<rparr>"
proof -
  have "\<exists>c\<in>set ''http://spam.biz''. \<not> isWhiteSpace c"
    by (simp add: isWhiteSpace_def)
  with contactForm_honeypot [where request = "sampleRequest (sampleForm\<lparr>website := Some ''http://spam.biz''\<rparr>)"
      and formData = "sampleForm\<lparr>website := Some ''http://spam.biz''\<rparr>" and w = "''http://spam.biz''"]
  show ?thesis
    by (simp add: sampleRequest_def)
qed


lemma sample_rate: "fst (checkRateLimit Map.empty now clientIp 3 60000)"
  by (simp add: checkRateLimit_def)



lemma validFields_update [simp]:
  "validFields (formData\<lparr>description := d\<rparr>) = validFields formData"
  "validFields (formData\<lparr>recaptchaToken := t\<rparr>) = validFields formData"
  "validFields (formData\<lparr>website := w\<rparr>) = validFields formData"
  by (simp_all add: validFields_def)




lemma containsUrls_other_urls:
  "\<not> containsUrls ''see ftp://files.example.xyz/a''"
  "\<not> containsUrls ''visit example.dev today''"
  by (simp_all add: containsUrls_def urlRegex_def string_evals)



text \<open>
  Claim C5 as stated fails. The descriptions \<^verbatim>\<open>see ftp://files.example.xyz/a\<close>, with a
  scheme and \<^verbatim>\<open>://\<close>, and \<^verbatim>\<open>visit example.dev today\<close>, with a domain name, hold a
  token that is like a URL, but the scheme is not \<^verbatim>\<open>http\<close> or \<^verbatim>\<open>https\<close> and no dot is
  followed by one of the eighteen suffixes: the otherwise valid sample submission with
  either description is answered with status 200 and the message is dispatched.
\<close>

theorem contactForm_accepts_other_urls:
  "''see ftp://files.example.xyz/a'' = ''see '' @ ''ftp'' @ ''://'' @ ''files.example.xyz/a'' \<and>
   requestMethod (sampleRequest (sampleForm\<lparr>description := Some ''see ftp://files.example.xyz/a''\<rparr>)) =
     ''POST'' \<and>
   json (sampleRequest (sampleForm\<lparr>description := Some ''see ftp://files.example.xyz/a''\<rparr>)) =
     Some (sampleForm\<lparr>description := Some ''see ftp://files.example.xyz/a''\<rparr>) \<and>
   \<not> truthy (website (sampleForm\<lparr>description := Some ''see ftp://files.example.xyz/a''\<rparr>)) \<and>
   validFields (sampleForm\<lparr>description := Some ''see ftp://files.example.xyz/a''\<rparr>) \<and>
   fst (checkRateLimit Map.empty (dateNow (sampleCollaborators None)) ''203.0.113.7'' 3 60000) \<and>
   response (contactForm sampleEnvironment (sampleCollaborators None) Map.empty
      (sampleRequest (sampleForm\<lparr>description := Some ''see ftp://files.example.xyz/a''\<rparr>))) =
     \<lparr>status = 200, headers = jsonHeaders,
      body = JsonSuccess True ''Form submitted successfully''\<rparr> \<and>
   map recipients (sentMessages (contactForm sampleEnvironment (sampleCollaborators None) Map.empty
      (sampleRequest (sampleForm\<lparr>description := Some ''see ftp://files.example.xyz/a''\<rparr>)))) =
     [RECIPIENT_ADDRESSES] \<and>
   validFields (sampleForm\<lparr>description := Some ''visit example.dev today''\<rparr>) \<and>
   response (contactForm sampleEnvironment (sampleCollaborators None) Map.empty
      (sampleRequest (sampleForm\<lparr>description := Some ''visit example.dev today''\<rparr>))) =
     \<lparr>status = 200, headers = jsonHeaders,
      body = JsonSuccess True ''Form submitted successfully''\<rparr> \<and>
   map recipients (sentMessages (contactForm sampleEnvironment (sampleCollaborators None) Map.empty
      (sampleRequest (sampleForm\<lparr>description := Some ''visit example.dev today''\<rparr>)))) =
     [RECIPIENT_ADDRESSES]"
proof -
  let ?world = "sampleCollaborators None"
  let ?store = "Map.empty(''203.0.113.7'' \<mapsto> \<lparr>count = 1, resetTime = 1700000060000\<rparr>)"
  have rate: "checkRateLimit Map.empty (dateNow ?world) ''203.0.113.7'' 3 60000 = (True, ?store)"
    by (simp add: checkRateLimit_def sampleCollaborators_def)
  have dispatched:
    "response (contactForm sampleEnvironment ?world Map.empty
        (sampleRequest (sampleForm\<lparr>description := Some d\<rparr>))) =
       \<lparr>status = 200, headers = jsonHeaders,
        body = JsonSuccess True ''Form submitted successfully''\<rparr> \<and>
     map recipients (sentMessages (contactForm sampleEnvironment ?world Map.empty
        (sampleRequest (sampleForm\<lparr>description := Some d\<rparr>)))) = [RECIPIENT_ADDRESSES]"
    if d: "length d \<le> 1200" "\<not> containsUrls d" for d
  proof -
    let ?form = "sampleForm\<lparr>description := Some d\<rparr>"
    have "validateSubmission Map.empty (dateNow ?world) ''203.0.113.7'' ?form =
            (None, snd (checkRateLimit Map.empty (dateNow ?world) ''203.0.113.7'' 3 60000))"
      by (rule validateSubmission_passes)
        (simp_all add: sampleForm_validFields d rate, simp add: sampleForm_def truthy_def)
    then have "validateSubmission Map.empty (dateNow ?world) (clientIpOf (sampleRequest ?form)) ?form =
            (None, ?store)"
      by (simp add: rate sampleRequest_clientIp)
    moreover have "requestMethod (sampleRequest ?form) = ''POST''"
      and "json (sampleRequest ?form) = Some ?form"
      by (simp_all add: sampleRequest_def)
    ultimately have "contactForm sampleEnvironment ?world Map.empty (sampleRequest ?form) =
            sendEmail sampleEnvironment ?world ?store [] (clientIpOf (sampleRequest ?form)) ?form"
      using contactForm_validated [where env = sampleEnvironment and world = ?world
          and store = Map.empty and request = "sampleRequest ?form" and formData = ?form
          and verdict = None and store' = ?store]
      by (simp add: sampleForm_def truthy_def)
    then show ?thesis
      by (simp add: sendEmail_def emailMessageFor_def sampleEnvironment_def
            sampleCollaborators_def truthy_def)
  qed
  show ?thesis
    using dispatched [OF _ containsUrls_other_urls(1)] dispatched [OF _ containsUrls_other_urls(2)]
      rate
    by (simp add: sampleForm_validFields) (simp add: sampleRequest_def sampleForm_def truthy_def)
qed

text \<open>
  Claim C5, amended. By the handler with the validation pipeline, a POST whose body
  parses, with no honeypot value, valid fields, a client identifier that the rate
  limiter allows, and a description of at most 1200 characters that holds the
  handler's URL pattern (\<open>urlPattern\<close>: ignoring case, \<^verbatim>\<open>http://\<close>, \<^verbatim>\<open>https://\<close> or
  \<^verbatim>\<open>www.\<close> followed by a character that is no white space, or such a character
  followed by a dot and one of the eighteen suffixes), is answered with status 400 and
  the error \<^verbatim>\<open>URLs are not allowed in the description\<close>; no message is dispatched and
  nothing is posted to the verification endpoint.
\<close>

theorem contactForm_url_in_description:
  assumes post: "requestMethod request = ''POST''"
    and parsed: "json request = Some formData"
    and noHoneypot: "\<not> truthy (website formData)"
    and valid: "validFields formData"
    and descr: "description formData = Some d" "length d \<le> 1200" "urlPattern d"
    and rate: "fst (checkRateLimit store (dateNow world) (clientIpOf request) 3 60000)"
  shows "response (contactForm env world store request) =
           errorResponse 400 ''URLs are not allowed in the description'' \<and>
         status (response (contactForm env world store request)) = 400 \<and>
         sentMessages (contactForm env world store request) = [] \<and>
         captchaRequests (contactForm env world store request) = []"
proof -
  have "validateSubmission store (dateNow world) (clientIpOf request) formData =
          (Some (errorResponse 400 ''URLs are not allowed in the description''),
           snd (checkRateLimit store (dateNow world) (clientIpOf request) 3 60000))"
    using noHoneypot valid descr rate
    by (intro validateSubmission_url) (simp_all add: containsUrls_urlPattern)
  from contactForm_validated [OF post parsed this] show ?thesis
    by (simp add: errorResponse_def)
qed

theorem contactForm_url_in_description_witness:
  "response (contactForm sampleEnvironment (sampleCollaborators None) Map.empty
     (sampleRequest (sampleForm\<lparr>description := Some ''Check out http://example.com''\<rparr>))) =
     errorResponse 400 ''URLs are not allowed in the description'' \<and>
   status (response (contactForm sampleEnvironment (sampleCollaborators None) Map.empty
     (sampleRequest (sampleForm\<lparr>description := Some ''Check out http://example.com''\<rparr>)))) = 400 \<and>
   sentMessages (contactForm sampleEnvironment (sampleCollaborators None) Map.empty
     (sampleRequest (sampleForm\<lparr>description := Some ''Check out http://example.com''\<rparr>))) = [] \<and>
   captchaRequests (contactForm sampleEnvironment (sampleCollaborators None) Map.empty
     (sampleRequest (sampleForm\<lparr>description := Some ''Check out http://example.com''\<rparr>))) = []"
proof -
  have valid: "validFields (sampleForm\<lparr>description := Some ''Check out http://example.com''\<rparr>)"
    by (simp add: sampleForm_validFields)
  have pattern: "urlPattern ''Check out http://example.com''"
    using containsUrls_example by (simp add: containsUrls_urlPattern)
  show ?thesis
    by (rule contactForm_url_in_description [OF _ _ _ valid _ _ pattern sample_rate])
      (simp_all add: sampleRequest_def sampleForm_def truthy_def)
qed

text \<open>
  Claim C6. For a submission that passes every check before the captcha step: with a
  token and without a secret key the handler answers 500 \<^verbatim>\<open>reCAPTCHA not configured\<close>,
  posts nothing to the verification endpoint and dispatches nothing; without a token
  (a missing or empty one) it posts nothing to the verification endpoint and goes on to
  the dispatch, whether or not a secret key is set.
\<close>

theorem contactForm_captcha_secret:
  assumes post: "requestMethod request = ''POST''"
    and parsed: "json request = Some formData"
    and reaches: "validateSubmission store (dateNow world) (clientIpOf request) formData =
                    (None, store')"
  shows "(truthy (recaptchaToken formData) \<and> \<not> truthy (RECAPTCHA_SECRET_KEY env) \<longrightarrow>
            contactForm env world store request =
              \<lparr>response = errorResponse 500 ''reCAPTCHA not configured'', storeAfter = store',
               captchaRequests = [], sentMessages = []\<rparr>) \<and>
         (\<not> truthy (recaptchaToken formData) \<longrightarrow>
            contactForm env world store request =
              sendEmail env world store' [] (clientIpOf request) formData \<and>
            captchaRequests (contactForm env world store request) = [])"
  using contactForm_validated [OF post parsed reaches, of env]
  by (simp add: sendEmail_captchaRequests)

lemma sampleForm_reaches:
  "validateSubmission Map.empty (dateNow (sampleCollaborators answer))
     (clientIpOf (sampleRequest (sampleForm\<lparr>recaptchaToken := t\<rparr>)))
     (sampleForm\<lparr>recaptchaToken := t\<rparr>) =
   (None, Map.empty(''203.0.113.7'' \<mapsto> \<lparr>count = 1, resetTime = 1700000060000\<rparr>))"
proof -
  let ?form = "sampleForm\<lparr>recaptchaToken := t\<rparr>"
  let ?now = "dateNow (sampleCollaborators answer)"
  have rate: "checkRateLimit Map.empty ?now ''203.0.113.7'' 3 60000 =
                (True, Map.empty(''203.0.113.7'' \<mapsto> \<lparr>count = 1, resetTime = 1700000060000\<rparr>))"
    by (simp add: checkRateLimit_def sampleCollaborators_def)
  have valid: "validFields ?form"
    by (simp add: sampleForm_validFields)
  have descr: "case description ?form of None \<Rightarrow> True
               | Some d \<Rightarrow> length d \<le> 1200 \<and> \<not> containsUrls d"
    by (simp add: sampleForm_def sampleForm_description)
  have "validateSubmission Map.empty ?now ''203.0.113.7'' ?form =
          (None, snd (checkRateLimit Map.empty ?now ''203.0.113.7'' 3 60000))"
    by (rule validateSubmission_passes [OF _ valid descr])
      (simp_all add: sampleForm_def truthy_def rate)
  then show ?thesis
    by (simp add: rate sampleRequest_clientIp)
qed

theorem contactForm_captcha_secret_witness:
  "contactForm (sampleEnvironment\<lparr>RECAPTCHA_SECRET_KEY := None\<rparr>) (sampleCollaborators None)
       Map.empty (sampleRequest (sampleForm\<lparr>recaptchaToken := Some ''03AGdBq25''\<rparr>)) =
     \<lparr>response = errorResponse 500 ''reCAPTCHA not configured'',
      storeAfter = Map.empty(''203.0.113.7'' \<mapsto> \<lparr>count = 1, resetTime = 1700000060000\<rparr>),
      captchaRequests = [], sentMessages = []\<rparr> \<and>
   contactForm (sampleEnvironment\<lparr>RECAPTCHA_SECRET_KEY := None\<rparr>) (sampleCollaborators None)
       Map.empty (sampleRequest (sampleForm\<lparr>recaptchaToken := None\<rparr>)) =
     sendEmail (sampleEnvironment\<lparr>RECAPTCHA_SECRET_KEY := None\<rparr>) (sampleCollaborators None)
       (Map.empty(''203.0.113.7'' \<mapsto> \<lparr>count = 1, resetTime = 1700000060000\<rparr>)) []
       (clientIpOf (sampleRequest (sampleForm\<lparr>recaptchaToken := None\<rparr>)))
       (sampleForm\<lparr>recaptchaToken := None\<rparr>) \<and>
   captchaRequests
     (contactForm (sampleEnvironment\<lparr>RECAPTCHA_SECRET_KEY := None\<rparr>) (sampleCollaborators None)
        Map.empty (sampleRequest (sampleForm\<lparr>recaptchaToken := None\<rparr>))) = []"
proof -
  let ?env = "sampleEnvironment\<lparr>RECAPTCHA_SECRET_KEY := None\<rparr>"
  have post: "requestMethod (sampleRequest formData) = ''POST''"
    and parsed: "json (sampleRequest formData) = Some formData" for formData
    by (simp_all add: sampleRequest_def)
  have token: "truthy (recaptchaToken (sampleForm\<lparr>recaptchaToken := Some ''03AGdBq25''\<rparr>)) \<and>
               \<not> truthy (RECAPTCHA_SECRET_KEY ?env)"
    and none: "\<not> truthy (recaptchaToken (sampleForm\<lparr>recaptchaToken := None\<rparr>))"
    by (simp_all add: truthy_def)
  from token none
    contactForm_captcha_secret
      [OF post parsed sampleForm_reaches [where t = "Some ''03AGdBq25''" and answer = None],
       where env = ?env]
    contactForm_captcha_secret
      [OF post parsed sampleForm_reaches [where t = None and answer = None], where env = ?env]
  show ?thesis
    by blast
qed

text \<open>
  Claim C7. For a submission that passes every check before the captcha step, with a
  token and with a secret key: the handler answers 400 \<^verbatim>\<open>reCAPTCHA validation failed\<close>
  exactly when the result of \<open>validateRecaptcha\<close> has no success or a score below 0.5,
  and then dispatches nothing; with success and a score of at least 0.5 it goes on to
  the dispatch, having posted the one verification request.
\<close>

theorem contactForm_captcha_verdict:
  assumes post: "requestMethod request = ''POST''"
    and parsed: "json request = Some formData"
    and reaches: "validateSubmission store (dateNow world) (clientIpOf request) formData =
                    (None, store')"
    and token: "truthy (recaptchaToken formData)"
    and secret: "truthy (RECAPTCHA_SECRET_KEY env)"
    and result: "result = validateRecaptcha env world (toString (recaptchaToken formData))"
  shows "(response (contactForm env world store request) =
            errorResponse 400 ''reCAPTCHA validation failed'' \<longleftrightarrow>
          \<not> success result \<or> score result < 0.5) \<and>
         (\<not> success result \<or> score result < 0.5 \<longrightarrow>
            sentMessages (contactForm env world store request) = []) \<and>
         (success result \<and> 0.5 \<le> score result \<longrightarrow>
            contactForm env world store request =
              sendEmail env world store'
                [''secret='' @ toString (RECAPTCHA_SECRET_KEY env) @ ''&response='' @
                 toString (recaptchaToken formData)]
                (clientIpOf request) formData)"
proof -
  let ?sent = "sendEmail env world store'
                [''secret='' @ toString (RECAPTCHA_SECRET_KEY env) @ ''&response='' @
                 toString (recaptchaToken formData)]
                (clientIpOf request) formData"
  have "status (response ?sent) \<in> {200, 500}"
    by (rule sendEmail_status)
  then have other: "response ?sent \<noteq> errorResponse 400 ''reCAPTCHA validation failed''"
    by (auto simp: errorResponse_def)
  show ?thesis
  proof (cases "\<not> success result \<or> score result < 0.5")
    case True
    with contactForm_validated [OF post parsed reaches, of env] token secret result
    show ?thesis by auto
  next
    case False
    with contactForm_validated [OF post parsed reaches, of env] token secret result
    have "contactForm env world store request = ?sent"
      by auto
    with False other show ?thesis
      by auto
  qed
qed

theorem contactForm_captcha_verdict_witness:
  "response (contactForm sampleEnvironment
       (sampleCollaborators (Some \<lparr>successField = Some True, scoreField = Some 0.3\<rparr>)) Map.empty
       (sampleRequest (sampleForm\<lparr>recaptchaToken := Some ''03AGdBq25''\<rparr>))) =
     errorResponse 400 ''reCAPTCHA validation failed'' \<and>
   sentMessages (contactForm sampleEnvironment
       (sampleCollaborators (Some \<lparr>successField = Some True, scoreField = Some 0.3\<rparr>)) Map.empty
       (sampleRequest (sampleForm\<lparr>recaptchaToken := Some ''03AGdBq25''\<rparr>))) = [] \<and>
   contactForm sampleEnvironment
       (sampleCollaborators (Some \<lparr>successField = Some True, scoreField = Some 0.9\<rparr>)) Map.empty
       (sampleRequest (sampleForm\<lparr>recaptchaToken := Some ''03AGdBq25''\<rparr>)) =
     sendEmail sampleEnvironment
       (sampleCollaborators (Some \<lparr>successField = Some True, scoreField = Some 0.9\<rparr>))
       (Map.empty(''203.0.113.7'' \<mapsto> \<lparr>count = 1, resetTime = 1700000060000\<rparr>))
       [''secret=6LeSecret&response=03AGdBq25'']
       ''203.0.113.7'' (sampleForm\<lparr>recaptchaToken := Some ''03AGdBq25''\<rparr>)"
proof -
  let ?form = "sampleForm\<lparr>recaptchaToken := Some ''03AGdBq25''\<rparr>"
  let ?low = "sampleCollaborators (Some \<lparr>successField = Some True, scoreField = Some 0.3\<rparr>)"
  let ?high = "sampleCollaborators (Some \<lparr>successField = Some True, scoreField = Some 0.9\<rparr>)"
  have post: "requestMethod (sampleRequest ?form) = ''POST''"
    and parsed: "json (sampleRequest ?form) = Some ?form"
    by (simp_all add: sampleRequest_def)
  have token: "truthy (recaptchaToken ?form)"
    and secret: "truthy (RECAPTCHA_SECRET_KEY sampleEnvironment)"
    by (simp_all add: truthy_def sampleEnvironment_def)
  have low: "validateRecaptcha sampleEnvironment ?low (toString (recaptchaToken ?form)) =
               \<lparr>success = True, score = 0.3\<rparr>"
    and high: "validateRecaptcha sampleEnvironment ?high (toString (recaptchaToken ?form)) =
               \<lparr>success = True, score = 0.9\<rparr>"
    by (simp_all add: validateRecaptcha_def sampleCollaborators_def)
  from contactForm_captcha_verdict [OF post parsed sampleForm_reaches token secret low [symmetric]]
    contactForm_captcha_verdict [OF post parsed sampleForm_reaches token secret high [symmetric]]
  show ?thesis
    by (simp add: sampleRequest_clientIp sampleEnvironment_def toString_def)
qed

end
